theory Spec2Isabelle
  imports Complex_Main "HOL-Library.Word"
begin

section \<open>JavaScript strings and numbers\<close>

text \<open>
  A JavaScript string is a sequence of UTF-16 code units. Literals of the server are ASCII
  and are written \<open>js ''...''\<close>.
\<close>

type_synonym jschar = "16 word"
type_synonym jsstring = "jschar list"
type_synonym bytes = "8 word list"

definition js :: "string \<Rightarrow> jsstring" where
  "js s = map (\<lambda>c. of_nat (of_char c)) s"

text \<open>
  The characters matched by \<open>\s\<close> in a regular expression; \<open>trim\<close> and the
  whitespace skipped by \<open>parseInt\<close> use the same set.
\<close>

definition isSpace :: "jschar \<Rightarrow> bool" where
  "isSpace c \<longleftrightarrow> (0x09 \<le> c \<and> c \<le> 0x0D) \<or> c = 0x20 \<or> c = 0xA0 \<or> c = 0x1680
     \<or> (0x2000 \<le> c \<and> c \<le> 0x200A) \<or> c = 0x2028 \<or> c = 0x2029 \<or> c = 0x202F
     \<or> c = 0x205F \<or> c = 0x3000 \<or> c = 0xFEFF"

definition isDigit :: "jschar \<Rightarrow> bool" where
  "isDigit c \<longleftrightarrow> 0x30 \<le> c \<and> c \<le> 0x39"

text \<open>The class \<open>[a-zA-Z0-9]\<close>.\<close>

definition isAlnum :: "jschar \<Rightarrow> bool" where
  "isAlnum c \<longleftrightarrow> (0x61 \<le> c \<and> c \<le> 0x7A) \<or> (0x41 \<le> c \<and> c \<le> 0x5A) \<or> isDigit c"

text \<open>The class of the code units U+0300 to U+036F: the combining diacritical marks.\<close>

definition isCombiningMark :: "jschar \<Rightarrow> bool" where
  "isCombiningMark c \<longleftrightarrow> 0x300 \<le> c \<and> c \<le> 0x36F"

text \<open>\<open>s.split(sep)\<close> for a one-character separator: never the empty array.\<close>

fun split_js :: "'a \<Rightarrow> 'a list \<Rightarrow> 'a list list" where
  "split_js sep [] = [[]]"
| "split_js sep (c # cs) =
     (if c = sep then [] # split_js sep cs
      else (case split_js sep cs of p # ps \<Rightarrow> (c # p) # ps | [] \<Rightarrow> [[c]]))"

text \<open>\<open>parts.join(sep)\<close>.\<close>

fun join_js :: "'a list \<Rightarrow> 'a list list \<Rightarrow> 'a list" where
  "join_js sep [] = []"
| "join_js sep [p] = p"
| "join_js sep (p # q # ps) = p @ sep @ join_js sep (q # ps)"

text \<open>
  \<open>s.replace(/X+/g, r)\<close> for a character class \<open>X\<close>: every maximal run of characters of
  the class is replaced by \<open>r\<close>.
\<close>

function replace_runs :: "('a \<Rightarrow> bool) \<Rightarrow> 'a list \<Rightarrow> 'a list \<Rightarrow> 'a list" where
  "replace_runs p r [] = []"
| "replace_runs p r (c # cs) =
     (if p c then r @ replace_runs p r (dropWhile p cs) else c # replace_runs p r cs)"
  by pat_completeness auto
termination
  by (relation "measure (\<lambda>(p, r, cs). length cs)")
     (auto simp: le_imp_less_Suc length_dropWhile_le)

definition trim :: "jsstring \<Rightarrow> jsstring" where
  "trim s = rev (dropWhile isSpace (rev (dropWhile isSpace s)))"

text \<open>
  \<open>toLowerCase\<close> on the characters that are left when the server calls it: ASCII letters,
  digits, hyphens and whitespace, of which only \<open>A-Z\<close> have a lower-case form.
\<close>

definition toLowerCase :: "jsstring \<Rightarrow> jsstring" where
  "toLowerCase s = map (\<lambda>c. if 0x41 \<le> c \<and> c \<le> 0x5A then c + 0x20 else c) s"

text \<open>
  Numbers are IEEE doubles in the source. The server only ever forms integers, \<open>NaN\<close> and
  (dividing by zero) the infinities. The model computes with the integers themselves. It
  agrees with the doubles as long as the integers stay below \<open>2^53\<close> in magnitude, where
  doubles hold them, their sums, differences and remainders exactly, print all their
  digits, and round their quotients to the same \<open>floor\<close> and \<open>ceil\<close>; from \<open>2^53\<close> on a
  double is the nearest representable value and the model is not the code any more.
  Every result below that states what such arithmetic gives is stated for numbers within
  this range (\<open>exact_num\<close>).
\<close>

datatype jsnum = Num int | NaN | PosInf | NegInf

fun exact_num :: "jsnum \<Rightarrow> bool" where
  "exact_num (Num i) \<longleftrightarrow> \<bar>i\<bar> < 9007199254740992"
| "exact_num _ \<longleftrightarrow> True"

function digits :: "nat \<Rightarrow> jsstring" where
  "digits n = (if n < 10 then [of_nat (48 + n)] else digits (n div 10) @ [of_nat (48 + n mod 10)])"
  by pat_completeness auto
termination
  by (relation "measure id") auto

declare digits.simps [simp del]

text \<open>
  A number inside a template literal, \<open>`${n}`\<close>: all the digits of the integer, as the
  code prints an integer below \<open>2^53\<close>.
\<close>

fun toString_num :: "jsnum \<Rightarrow> jsstring" where
  "toString_num (Num i) = (if i < 0 then js ''-'' @ digits (nat (- i)) else digits (nat i))"
| "toString_num NaN = js ''NaN''"
| "toString_num PosInf = js ''Infinity''"
| "toString_num NegInf = js ''-Infinity''"

definition digit_val :: "jschar \<Rightarrow> int" where
  "digit_val c = uint c - 48"

text \<open>
  \<open>parseInt(s, 10)\<close>: leading whitespace is skipped, one sign is read, then the longest
  run of decimal digits; \<open>NaN\<close> when there is no digit. The value is the integer that the
  digits denote, which is what the code returns while it is below \<open>2^53\<close>; of a larger
  one the code returns the nearest double.
\<close>

definition parseInt :: "jsstring \<Rightarrow> jsnum" where
  "parseInt s =
     (let t = dropWhile isSpace s;
          neg = (t \<noteq> [] \<and> hd t = 0x2D);
          u = (if t \<noteq> [] \<and> (hd t = 0x2D \<or> hd t = 0x2B) then tl t else t);
          ds = takeWhile isDigit u
      in if ds = [] then NaN
         else Num ((if neg then - 1 else 1) * foldl (\<lambda>a c. 10 * a + digit_val c) 0 ds))"

fun js_add :: "jsnum \<Rightarrow> jsnum \<Rightarrow> jsnum" where
  "js_add (Num a) (Num b) = Num (a + b)"
| "js_add NaN _ = NaN"
| "js_add _ NaN = NaN"
| "js_add PosInf NegInf = NaN"
| "js_add NegInf PosInf = NaN"
| "js_add PosInf _ = PosInf"
| "js_add NegInf _ = NegInf"
| "js_add _ PosInf = PosInf"
| "js_add _ NegInf = NegInf"

fun js_neg :: "jsnum \<Rightarrow> jsnum" where
  "js_neg (Num a) = Num (- a)"
| "js_neg NaN = NaN"
| "js_neg PosInf = NegInf"
| "js_neg NegInf = PosInf"

definition js_sub :: "jsnum \<Rightarrow> jsnum \<Rightarrow> jsnum" where
  "js_sub a b = js_add a (js_neg b)"

text \<open>\<open>Math.min(a, b)\<close>.\<close>

fun js_min :: "jsnum \<Rightarrow> jsnum \<Rightarrow> jsnum" where
  "js_min (Num a) (Num b) = Num (min a b)"
| "js_min NaN _ = NaN"
| "js_min _ NaN = NaN"
| "js_min NegInf _ = NegInf"
| "js_min _ NegInf = NegInf"
| "js_min PosInf b = b"
| "js_min a PosInf = a"

text \<open>
  \<open>a / b\<close> is only ever rounded at once, so the quotient is modelled together with its
  rounding: \<open>Math.floor(a / b)\<close> and \<open>Math.ceil(a / b)\<close>. The divisor is a chunk size, never
  negative; a zero divisor is \<open>+0\<close>.
\<close>

fun js_quot :: "(int \<Rightarrow> int \<Rightarrow> int) \<Rightarrow> jsnum \<Rightarrow> jsnum \<Rightarrow> jsnum" where
  "js_quot rnd (Num a) (Num b) =
     (if b \<noteq> 0 then Num (rnd a b)
      else if a = 0 then NaN else if 0 < a then PosInf else NegInf)"
| "js_quot rnd NaN _ = NaN"
| "js_quot rnd _ NaN = NaN"
| "js_quot rnd (Num a) _ = Num 0"
| "js_quot rnd PosInf (Num b) = (if b < 0 then NegInf else PosInf)"
| "js_quot rnd NegInf (Num b) = (if b < 0 then PosInf else NegInf)"
| "js_quot rnd _ _ = NaN"

definition floor_div :: "jsnum \<Rightarrow> jsnum \<Rightarrow> jsnum" where
  "floor_div a b = js_quot (\<lambda>x y. x div y) a b"

definition ceil_div :: "jsnum \<Rightarrow> jsnum \<Rightarrow> jsnum" where
  "ceil_div a b = js_quot (\<lambda>x y. - ((- x) div y)) a b"

text \<open>\<open>a % b\<close>: the remainder has the sign of the dividend.\<close>

fun js_rem :: "jsnum \<Rightarrow> jsnum \<Rightarrow> jsnum" where
  "js_rem (Num a) (Num b) = (if b = 0 then NaN else Num (sgn a * (\<bar>a\<bar> mod \<bar>b\<bar>)))"
| "js_rem (Num a) PosInf = Num a"
| "js_rem (Num a) NegInf = Num a"
| "js_rem _ _ = NaN"

text \<open>\<open>a < b\<close> and \<open>a === b\<close> on numbers: both are false when an operand is \<open>NaN\<close>.\<close>

fun js_less :: "jsnum \<Rightarrow> jsnum \<Rightarrow> bool" where
  "js_less (Num a) (Num b) = (a < b)"
| "js_less NaN _ = False"
| "js_less _ NaN = False"
| "js_less _ NegInf = False"
| "js_less PosInf _ = False"
| "js_less _ _ = True"

definition js_eq :: "jsnum \<Rightarrow> jsnum \<Rightarrow> bool" where
  "js_eq a b \<longleftrightarrow> a \<noteq> NaN \<and> a = b"

text \<open>
  A number inside \<open>JSON.stringify\<close> and back through \<open>JSON.parse\<close>: \<open>NaN\<close> and
  the infinities are written as \<open>null\<close>. In arithmetic \<open>null\<close> counts as \<open>0\<close>; in a
  template literal and in a header it reads \<open>null\<close>.
\<close>

fun to_json :: "jsnum \<Rightarrow> int option" where
  "to_json (Num i) = Some i"
| "to_json _ = None"

fun of_json :: "int option \<Rightarrow> jsnum" where
  "of_json (Some i) = Num i"
| "of_json None = Num 0"

fun toString_json :: "int option \<Rightarrow> jsstring" where
  "toString_json (Some i) = toString_num (Num i)"
| "toString_json None = js ''null''"

text \<open>A string that may be \<open>undefined\<close> or \<open>null\<close>, under \<open>!\<close>.\<close>

definition falsy :: "jsstring option \<Rightarrow> bool" where
  "falsy v \<longleftrightarrow> v = None \<or> v = Some []"

section \<open>File name normalisation\<close>

text \<open>
  \<open>formatFileName(filename, isChunk = false, chunkIndex = 0)\<close>. The canonical
  decomposition \<open>normalize("NFD")\<close> is the runtime's Unicode table; it is the parameter
  \<open>nfd\<close>. \<open>splitted.pop() || ""\<close> is the last piece of the split (the array is never
  empty), and \<open>splitted\<close> is left with the pieces before it.
\<close>

definition formatFileName :: "(jsstring \<Rightarrow> jsstring) \<Rightarrow> jsstring \<Rightarrow> bool \<Rightarrow> jsnum \<Rightarrow> jsstring" where
  "formatFileName nfd filename isChunk chunkIndex =
     (let splitted = split_js 0x2E filename;
          extension = (if splitted = [] then [] else last splitted);
          name = join_js (js ''.'') (butlast splitted);
          cleaned = trim (filter (\<lambda>c. isAlnum c \<or> isSpace c \<or> c = 0x2D)
                      (filter (\<lambda>c. \<not> isCombiningMark c) (nfd name)));
          kebab = replace_runs (\<lambda>c. c = 0x2D) (js ''-'')
                    (replace_runs isSpace (js ''-'') (toLowerCase cleaned))
      in kebab @ (if isChunk then js ''-'' @ toString_num chunkIndex else []) @ js ''.'' @ extension)"

text \<open>The extension of a file name: what follows its last dot.\<close>

definition extension_of :: "jsstring \<Rightarrow> jsstring" where
  "extension_of s = last (split_js 0x2E s)"

section \<open>Metadata store and backend\<close>

text \<open>
  One JSON document per file identifier, \<open>metadata/<fileId>.json\<close>. The field \<open>done\<close>
  of the source is \<open>is_done\<close> here. The numeric fields hold what \<open>JSON.stringify\<close> wrote:
  an integer or \<open>null\<close>.
\<close>

record metadata =
  is_done :: bool
  fileId :: jsstring
  fileName :: jsstring
  fileSize :: "int option"
  chunkSize :: "int option"
  totalChunks :: "int option"
  deleteToken :: "jsstring option"
  fileIds :: "jsstring list"

text \<open>
  The state a request handler works on: the metadata directory, keyed by the file
  identifier (identifiers are taken to be plain file names, so that different identifiers
  are different paths), the number of \<open>writeFileSync\<close> calls made so far and the names of
  the documents sent to the backend so far, one entry per \<open>sendDocument\<close> request.
\<close>

record server =
  files :: "jsstring \<rightharpoonup> metadata"
  writes :: nat
  sent :: "jsstring list"

text \<open>
  What the backend answers to one \<open>sendDocument\<close> request: the document's \<open>file_id\<close>, or
  an error, which may carry \<open>parameters.retry_after\<close>.
\<close>

datatype upload_reply = Document jsstring | Failure "nat option"

datatype upload_outcome = Stored jsstring | Thrown | NoAnswer

text \<open>
  \<open>uploadToService(file, fileName)\<close> against the backend's successive answers. An error
  with a truthy \<open>retry_after\<close> is retried, any other error is thrown again. The result
  comes with the number of requests made. \<open>NoAnswer\<close>: the answers considered are all
  rate limits, and the call has not returned.
\<close>

fun uploadToService :: "upload_reply list \<Rightarrow> bytes \<Rightarrow> jsstring \<Rightarrow> upload_outcome \<times> nat" where
  "uploadToService [] file name = (NoAnswer, 0)"
| "uploadToService (Document ref # replies) file name = (Stored ref, 1)"
| "uploadToService (Failure retry_after # replies) file name =
     (if retry_after \<noteq> None \<and> retry_after \<noteq> Some 0
      then (case uploadToService replies file name of (outcome, n) \<Rightarrow> (outcome, Suc n))
      else (Thrown, 1))"

definition hex_digit :: "nat \<Rightarrow> jschar" where
  "hex_digit n = (if n < 10 then of_nat (48 + n) else of_nat (87 + n))"

text \<open>\<open>generateDeleteToken()\<close>, given the bytes that \<open>randomBytes(24)\<close> returns.\<close>

definition generateDeleteToken :: "bytes \<Rightarrow> jsstring" where
  "generateDeleteToken random =
     concat (map (\<lambda>b. [hex_digit (unat b div 16), hex_digit (unat b mod 16)]) random)"

section \<open>Chunk upload: \<open>POST /u\<close>\<close>

text \<open>
  The multipart form: the file part \<open>chunk\<close> and the text fields, each a string when
  present.
\<close>

record upload_request =
  chunk :: "bytes option"
  req_fileId :: "jsstring option"
  req_fileName :: "jsstring option"
  req_fileSize :: "jsstring option"
  req_chunkIndex :: "jsstring option"
  req_chunkSize :: "jsstring option"
  req_totalChunks :: "jsstring option"

text \<open>
  The responses of the handler. \<open>FileUploaded\<close> carries \<open>fileName\<close>, \<open>totalChunks\<close> and
  \<open>deleteToken\<close> of the record; \<open>ChunkUploaded\<close> carries \<open>fileName\<close>, the next chunk
  index and \<open>totalChunks\<close>.
\<close>

datatype upload_response =
    MissingFields
  | ChunkSizeOutOfRange
  | AlreadyUploaded
  | FileUploaded jsstring "int option" "jsstring option"
  | ChunkUploaded jsstring jsnum "int option"
  | UploadFailed

fun upload_status :: "upload_response \<Rightarrow> nat" where
  "upload_status MissingFields = 400"
| "upload_status ChunkSizeOutOfRange = 400"
| "upload_status AlreadyUploaded = 409"
| "upload_status (FileUploaded _ _ _) = 200"
| "upload_status (ChunkUploaded _ _ _) = 200"
| "upload_status UploadFailed = 500"

text \<open>The record written when the metadata file does not exist yet.\<close>

definition new_metadata :: "(jsstring \<Rightarrow> jsstring) \<Rightarrow> jsstring \<Rightarrow> jsstring \<Rightarrow> jsnum \<Rightarrow> jsnum \<Rightarrow> jsnum \<Rightarrow> metadata" where
  "new_metadata nfd fid fname fsize csize totalN =
     \<lparr>is_done = False, fileId = fid, fileName = formatFileName nfd fname False (Num 0),
      fileSize = to_json fsize, chunkSize = to_json csize, totalChunks = to_json totalN,
      deleteToken = None, fileIds = []\<rparr>"

text \<open>
  The second half of the handler, from reading the metadata file back: the chunk is sent
  to the backend, its reference appended, the record completed when
  \<open>chunkIndex === totalChunks - 1\<close> (the numbers of the request), and written. A throw of
  \<open>uploadToService\<close> is caught by the handler and answered with status 500.
\<close>

definition ingest :: "(jsstring \<Rightarrow> jsstring) \<Rightarrow> upload_reply list \<Rightarrow> bytes \<Rightarrow> bytes \<Rightarrow> jsstring \<Rightarrow> jsstring
    \<Rightarrow> jsnum \<Rightarrow> jsnum \<Rightarrow> metadata \<Rightarrow> server \<Rightarrow> upload_response option \<times> server" where
  "ingest nfd replies random file fid fname chunkIndex totalN md srv =
     (let name = formatFileName nfd fname True chunkIndex;
          (outcome, n) = uploadToService replies file name;
          srv1 = srv\<lparr>sent := sent srv @ replicate n name\<rparr>
      in case outcome of
           NoAnswer \<Rightarrow> (None, srv1)
         | Thrown \<Rightarrow> (Some UploadFailed, srv1)
         | Stored ref \<Rightarrow>
             (let final = js_eq chunkIndex (js_sub totalN (Num 1));
                  md1 = md\<lparr>fileIds := fileIds md @ [ref]\<rparr>;
                  md2 = (if final
                         then md1\<lparr>is_done := True, deleteToken := Some (generateDeleteToken random)\<rparr>
                         else md1);
                  srv2 = srv1\<lparr>files := (files srv1)(fid \<mapsto> md2), writes := Suc (writes srv1)\<rparr>
              in if final
                 then (Some (FileUploaded (fileName md2) (totalChunks md2) (deleteToken md2)), srv2)
                 else (Some (ChunkUploaded (fileName md2) (js_add chunkIndex (Num 1)) (totalChunks md2)),
                       srv2)))"

text \<open>
  The handler. Its result is the response (\<open>None\<close> while the backend keeps rate limiting)
  and the state it leaves.
\<close>

definition post_u :: "(jsstring \<Rightarrow> jsstring) \<Rightarrow> upload_reply list \<Rightarrow> bytes \<Rightarrow> upload_request \<Rightarrow> server
    \<Rightarrow> upload_response option \<times> server" where
  "post_u nfd replies random req srv =
     (if chunk req = None \<or> falsy (req_fileId req) \<or> falsy (req_fileName req)
         \<or> falsy (req_fileSize req) \<or> falsy (req_chunkIndex req) \<or> falsy (req_chunkSize req)
         \<or> falsy (req_totalChunks req)
      then (Some MissingFields, srv)
      else
        (let file = the (chunk req);
             fid = the (req_fileId req);
             fname = the (req_fileName req);
             chunkIndex = parseInt (the (req_chunkIndex req));
             csize = parseInt (the (req_chunkSize req));
             totalN = parseInt (the (req_totalChunks req));
             fsize = parseInt (the (req_fileSize req))
         in if js_less csize (Num (1024 * 1024)) \<or> js_less (Num (50 * 1024 * 1024)) csize
            then (Some ChunkSizeOutOfRange, srv)
            else
              (case files srv fid of
                 Some existing \<Rightarrow>
                   if is_done existing then (Some AlreadyUploaded, srv)
                   else ingest nfd replies random file fid fname chunkIndex totalN existing srv
               | None \<Rightarrow>
                   (let md = new_metadata nfd fid fname fsize csize totalN
                    in ingest nfd replies random file fid fname chunkIndex totalN md
                         (srv\<lparr>files := (files srv)(fid \<mapsto> md), writes := Suc (writes srv)\<rparr>)))))"

section \<open>Deletion: \<open>DELETE /:fileId\<close>\<close>

datatype delete_response =
    MissingToken
  | DeleteNotFound
  | CannotBeDeleted
  | InvalidToken
  | Deleted

fun delete_status :: "delete_response \<Rightarrow> nat" where
  "delete_status MissingToken = 400"
| "delete_status DeleteNotFound = 404"
| "delete_status CannotBeDeleted = 400"
| "delete_status InvalidToken = 403"
| "delete_status Deleted = 200"

definition delete_fileId :: "jsstring \<Rightarrow> jsstring option \<Rightarrow> server \<Rightarrow> delete_response \<times> server" where
  "delete_fileId fid token srv =
     (if falsy token then (MissingToken, srv)
      else
        (case files srv fid of
           None \<Rightarrow> (DeleteNotFound, srv)
         | Some md \<Rightarrow>
             if falsy (deleteToken md) then (CannotBeDeleted, srv)
             else if deleteToken md \<noteq> token then (InvalidToken, srv)
             else (Deleted, srv\<lparr>files := (files srv)(fid := None)\<rparr>)))"

section \<open>Download: \<open>GET /:fileId\<close>\<close>

text \<open>
  \<open>convertFileIdsToUrls(fileIds)\<close>. The parameter \<open>resolve\<close> is \<open>getFileFromService\<close>: the
  URL the backend gives for a reference, or \<open>null\<close>. \<open>urls.filter(Boolean)\<close> keeps the
  truthy results.
\<close>

definition convertFileIdsToUrls :: "(jsstring \<Rightarrow> jsstring option) \<Rightarrow> jsstring list \<Rightarrow> jsstring list" where
  "convertFileIdsToUrls resolve ids =
     map the (filter (\<lambda>u. \<not> falsy u) (map resolve ids))"

datatype error = TypeError

text \<open>
  \<open>rangeStr ? parseInt(rangeStr.split("=")[1].split("-")[0], 10) : null\<close>. The result
  \<open>None\<close> is \<open>null\<close>. A header without \<open>=\<close> makes \<open>split("=")[1]\<close> undefined, and the call
  of \<open>split\<close> on it throws.
\<close>

definition range_start :: "jsstring option \<Rightarrow> error + jsnum option" where
  "range_start rangeStr =
     (if falsy rangeStr then Inr None
      else (case split_js 0x3D (the rangeStr) of
              _ # v # _ \<Rightarrow> Inr (Some (parseInt (hd (split_js 0x2D v))))
            | _ \<Rightarrow> Inl TypeError))"

text \<open>
  \<open>rangeStr && start !== null ? Math.min(start + metadata.chunkSize, metadata.fileSize - 1) : null\<close>
\<close>

definition range_end :: "metadata \<Rightarrow> jsstring option \<Rightarrow> jsnum option \<Rightarrow> jsnum option" where
  "range_end md rangeStr start =
     (if \<not> falsy rangeStr \<and> start \<noteq> None
      then Some (js_min (js_add (the start) (of_json (chunkSize md)))
                        (js_sub (of_json (fileSize md)) (Num 1)))
      else None)"

text \<open>
  \<open>xs.slice(from, to)\<close> for integral, infinite or \<open>NaN\<close> arguments: each is turned into
  an index between \<open>0\<close> and the length, a negative one counting from the end.
\<close>

fun slice_index :: "nat \<Rightarrow> jsnum \<Rightarrow> nat" where
  "slice_index len (Num k) = (if k < 0 then nat (max (int len + k) 0) else min (nat k) len)"
| "slice_index len NaN = 0"
| "slice_index len PosInf = len"
| "slice_index len NegInf = 0"

definition slice_js :: "jsnum \<Rightarrow> jsnum \<Rightarrow> 'a list \<Rightarrow> 'a list" where
  "slice_js from to xs =
     (let i = slice_index (length xs) from; j = slice_index (length xs) to
      in take (j - i) (drop i xs))"

text \<open>
  One remote fetch: the URL and the optional properties \<open>start\<close> and \<open>end\<close> of the part
  (\<open>None\<close> is \<open>undefined\<close>).
\<close>

record part =
  url :: jsstring
  part_start :: "jsnum option"
  part_end :: "jsnum option"

definition whole :: "jsstring \<Rightarrow> part" where
  "whole u = \<lparr>url = u, part_start = None, part_end = None\<rparr>"

text \<open>
  What the handler has decided before it streams: the status, the \<open>Content-Length\<close> and
  \<open>Content-Range\<close> headers as sent, and the parts. (\<open>Accept-Ranges\<close>,
  \<open>Content-Disposition\<close> and the content type do not depend on the request and are left
  out.) The status is 200 and \<open>Content-Length\<close> is \<open>metadata.fileSize\<close> until the ranged
  branch overrides them.
\<close>

record plan =
  status :: nat
  content_length :: jsstring
  content_range :: "jsstring option"
  parts :: "part list"

definition set_offsets :: "jsnum \<Rightarrow> jsnum \<Rightarrow> part list \<Rightarrow> part list" where
  "set_offsets first_start last_end ps =
     (if ps \<noteq> []
      then (let ps1 = ps[0 := (ps ! 0)\<lparr>part_start := Some first_start\<rparr>]
            in ps1[length ps1 - 1 := (ps1 ! (length ps1 - 1))\<lparr>part_end := Some last_end\<rparr>])
      else ps)"

definition partsToDownload :: "metadata \<Rightarrow> jsstring list \<Rightarrow> jsstring option \<Rightarrow> jsnum option \<Rightarrow> jsnum option \<Rightarrow> plan" where
  "partsToDownload md urls rangeStr start rend =
     (if falsy rangeStr \<or> start = None \<or> rend = None
      then \<lparr>status = 200, content_length = toString_json (fileSize md), content_range = None,
            parts = map whole urls\<rparr>
      else
        (let s = the start; e = the rend;
             startPartNumber = floor_div s (of_json (chunkSize md));
             endPartNumber = ceil_div e (of_json (chunkSize md));
             ps = map whole (slice_js startPartNumber endPartNumber urls)
         in \<lparr>status = 206,
             content_length = toString_num (js_add (js_sub e s) (Num 1)),
             content_range = Some (js ''bytes '' @ toString_num s @ js ''-'' @ toString_num e
                                   @ js ''/'' @ toString_json (fileSize md)),
             parts = set_offsets (js_rem s (of_json (chunkSize md)))
                       (js_rem e (of_json (chunkSize md))) ps\<rparr>))"

text \<open>
  The \<open>Range\<close> header of the fetch of one part:
  \<open>`bytes=${part.start || 0}-${part.end !== undefined ? part.end : ''}`\<close>, set when either
  property is defined.
\<close>

definition or_zero :: "jsnum option \<Rightarrow> jsnum" where
  "or_zero v = (case v of None \<Rightarrow> Num 0 | Some NaN \<Rightarrow> Num 0 | Some n \<Rightarrow> n)"

definition fetch_range :: "part \<Rightarrow> jsstring option" where
  "fetch_range p =
     (if part_start p \<noteq> None \<or> part_end p \<noteq> None
      then Some (js ''bytes='' @ toString_num (or_zero (part_start p)) @ js ''-''
                 @ (case part_end p of None \<Rightarrow> [] | Some e \<Rightarrow> toString_num e))
      else None)"

text \<open>
  The answer of the remote store to one fetch: the whole body, or a failure after some
  bytes (none at all when the request itself is rejected).
\<close>

datatype fetched = Complete bytes | Broken bytes

text \<open>
  The loop over the parts: the bytes written to the response so far, and whether every
  part came through. A failed fetch leaves the loop.
\<close>

fun stream_parts :: "(jsstring \<Rightarrow> jsstring option \<Rightarrow> fetched) \<Rightarrow> part list \<Rightarrow> bytes \<Rightarrow> bytes \<times> bool" where
  "stream_parts fetch [] written = (written, True)"
| "stream_parts fetch (p # ps) written =
     (case fetch (url p) (fetch_range p) of
        Complete data \<Rightarrow> stream_parts fetch ps (written @ data)
      | Broken data \<Rightarrow> (written @ data, False))"

text \<open>
  The response: 404, 500, or the planned status and headers with the bytes written;
  \<open>ended\<close> is false when a fetch failed after the head of the response had gone out
  with the first byte. A failure before any byte is written still finds
  \<open>res.headersSent\<close> false and is answered with status 500.
\<close>

datatype download_response =
    NotFound
  | InternalError
  | Response nat jsstring "jsstring option" bytes bool

fun download_status :: "download_response \<Rightarrow> nat" where
  "download_status NotFound = 404"
| "download_status InternalError = 500"
| "download_status (Response st _ _ _ _) = st"

text \<open>
  What the handler computes between resolving the references and streaming: the start and
  the end of the range, then the plan; a throw while reading the header leaves the
  handler for its \<open>catch\<close>.
\<close>

definition download_plan :: "metadata \<Rightarrow> jsstring list \<Rightarrow> jsstring option \<Rightarrow> error + plan" where
  "download_plan md urls rangeStr =
     (case range_start rangeStr of
        Inl e \<Rightarrow> Inl e
      | Inr start \<Rightarrow> Inr (partsToDownload md urls rangeStr start (range_end md rangeStr start)))"

definition get_fileId :: "(jsstring \<Rightarrow> jsstring option) \<Rightarrow> (jsstring \<Rightarrow> jsstring option \<Rightarrow> fetched)
    \<Rightarrow> jsstring \<Rightarrow> jsstring option \<Rightarrow> server \<Rightarrow> download_response" where
  "get_fileId resolve fetch fid rangeStr srv =
     (case files srv fid of
        None \<Rightarrow> NotFound
      | Some md \<Rightarrow>
          (case download_plan md (convertFileIdsToUrls resolve (fileIds md)) rangeStr of
             Inl _ \<Rightarrow> InternalError
           | Inr pl \<Rightarrow>
               (let (body, ok) = stream_parts fetch (parts pl) []
                in if \<not> ok \<and> body = [] then InternalError
                   else Response (status pl) (content_length pl) (content_range pl) body ok)))"

text \<open>
  The server states that requests can lead to, from the empty metadata directory. A
  download changes nothing.
\<close>

inductive reachable :: "server \<Rightarrow> bool" where
  start: "reachable \<lparr>files = Map.empty, writes = 0, sent = []\<rparr>"
| upload: "reachable srv \<Longrightarrow> reachable (snd (post_u nfd replies random req srv))"
| delete: "reachable srv \<Longrightarrow> reachable (snd (delete_fileId fid token srv))"

section \<open>Validation, and the requests and states of the examples\<close>

text \<open>
  A request passes the two checks at the head of the upload handler: the file part and
  every field are there, and the chunk size is not below 1 MiB and not above 50 MiB
  (both comparisons are false for \<open>NaN\<close>).
\<close>

definition passes_validation :: "upload_request \<Rightarrow> bool" where
  "passes_validation req \<longleftrightarrow>
     chunk req \<noteq> None \<and> \<not> falsy (req_fileId req) \<and> \<not> falsy (req_fileName req)
     \<and> \<not> falsy (req_fileSize req) \<and> \<not> falsy (req_chunkIndex req)
     \<and> \<not> falsy (req_chunkSize req) \<and> \<not> falsy (req_totalChunks req)
     \<and> \<not> js_less (parseInt (the (req_chunkSize req))) (Num (1024 * 1024))
     \<and> \<not> js_less (Num (50 * 1024 * 1024)) (parseInt (the (req_chunkSize req)))"

text \<open>
  An upload request with a one-byte chunk and the fields \<open>fileId\<close>, \<open>fileName\<close>,
  \<open>fileSize\<close>, \<open>chunkIndex\<close>, \<open>chunkSize\<close>, \<open>totalChunks\<close>, in this order.
\<close>

definition request :: "string \<Rightarrow> string \<Rightarrow> string \<Rightarrow> string \<Rightarrow> string \<Rightarrow> string \<Rightarrow> upload_request" where
  "request fid fname fsize idx csize tot =
     \<lparr>chunk = Some [0x2A], req_fileId = Some (js fid), req_fileName = Some (js fname),
      req_fileSize = Some (js fsize), req_chunkIndex = Some (js idx),
      req_chunkSize = Some (js csize), req_totalChunks = Some (js tot)\<rparr>"

definition empty_server :: server where
  "empty_server = \<lparr>files = Map.empty, writes = 0, sent = []\<rparr>"

text \<open>The server after the one-chunk file \<open>f1\<close> has been uploaded: its record is done.\<close>

definition done_server :: server where
  "done_server = snd (post_u (\<lambda>s. s) [Document (js ''ref0'')] [0x0F, 0xA0]
       (request ''f1'' ''a.bin'' ''10'' ''0'' ''1048576'' ''1'') empty_server)"

text \<open>The server after chunk 0 of the three chunks of \<open>f2\<close> has been uploaded.\<close>

definition pending_server :: server where
  "pending_server = snd (post_u (\<lambda>s. s) [Document (js ''ref0'')] [0x0F, 0xA0]
       (request ''f2'' ''b.bin'' ''3000000'' ''0'' ''1048576'' ''3'') empty_server)"

text \<open>
  What \<open>uploadToService\<close> comes to for given answers of the backend (it depends on
  neither the bytes nor the name), the record that a request creates, and the test
  \<open>chunkIndex === totalChunks - 1\<close> on the numbers of a request.
\<close>

definition backend_outcome :: "upload_reply list \<Rightarrow> upload_outcome" where
  "backend_outcome replies = fst (uploadToService replies [] [])"

definition fresh_record :: "(jsstring \<Rightarrow> jsstring) \<Rightarrow> upload_request \<Rightarrow> metadata" where
  "fresh_record nfd req =
     new_metadata nfd (the (req_fileId req)) (the (req_fileName req))
       (parseInt (the (req_fileSize req))) (parseInt (the (req_chunkSize req)))
       (parseInt (the (req_totalChunks req)))"

definition is_final :: "upload_request \<Rightarrow> bool" where
  "is_final req \<longleftrightarrow>
     js_eq (parseInt (the (req_chunkIndex req)))
           (js_sub (parseInt (the (req_totalChunks req))) (Num 1))"

text \<open>
  The chunk index and the chunk count of a request are below \<open>2^53\<close> in magnitude (or
  \<open>NaN\<close>): then \<open>is_final\<close> is the test as the code's doubles decide it.
\<close>

definition exact_counts :: "upload_request \<Rightarrow> bool" where
  "exact_counts req \<longleftrightarrow>
     exact_num (parseInt (the (req_chunkIndex req)))
     \<and> exact_num (parseInt (the (req_totalChunks req)))"

text \<open>A sequence of upload requests, each with the backend's answers and the random bytes.\<close>

fun run_uploads :: "(jsstring \<Rightarrow> jsstring) \<Rightarrow> (upload_reply list \<times> bytes \<times> upload_request) list \<Rightarrow> server \<Rightarrow> server" where
  "run_uploads nfd [] srv = srv"
| "run_uploads nfd ((replies, random, req) # calls) srv =
     run_uploads nfd calls (snd (post_u nfd replies random req srv))"

text \<open>The invariant of the metadata directory: a record has a delete token iff it is done.\<close>

definition token_iff_done :: "server \<Rightarrow> bool" where
  "token_iff_done srv \<longleftrightarrow>
     (\<forall>f md. files srv f = Some md \<longrightarrow> (deleteToken md \<noteq> None) = is_done md)"

text \<open>Whether the record of a file identifier is there and done.\<close>

definition record_done :: "server \<Rightarrow> jsstring \<Rightarrow> bool" where
  "record_done srv fid = (case files srv fid of Some md \<Rightarrow> is_done md | None \<Rightarrow> False)"

text \<open>The record an upload request works on: the stored one, or the one it creates.\<close>

definition base_record :: "(jsstring \<Rightarrow> jsstring) \<Rightarrow> upload_request \<Rightarrow> server \<Rightarrow> metadata" where
  "base_record nfd req srv =
     (case files srv (the (req_fileId req)) of Some m \<Rightarrow> m | None \<Rightarrow> fresh_record nfd req)"

text \<open>A request for \<open>fid\<close> that declares a file of one chunk and carries chunk 0.\<close>

definition completing_request :: "jsstring \<Rightarrow> upload_request" where
  "completing_request fid =
     \<lparr>chunk = Some [0x2A], req_fileId = Some fid, req_fileName = Some (js ''x.bin''),
      req_fileSize = Some (js ''1''), req_chunkIndex = Some (js ''0''),
      req_chunkSize = Some (js ''1048576''), req_totalChunks = Some (js ''1'')\<rparr>"



text \<open>
  The file of the range example: 25000000 bytes in chunks of 10000000, stored as the
  references \<open>a\<close>, \<open>b\<close>, \<open>c\<close>; and the server after its three chunks have been uploaded.
\<close>

definition md25 :: metadata where
  "md25 = \<lparr>is_done = True, fileId = js ''f1'', fileName = js ''movie.mp4'',
      fileSize = Some 25000000, chunkSize = Some 10000000, totalChunks = Some 3,
      deleteToken = Some (js ''0fa0''), fileIds = [js ''a'', js ''b'', js ''c'']\<rparr>"

definition movie_server :: server where
  "movie_server = run_uploads (\<lambda>s. s)
     [([Document (js ''a'')], [0x0F, 0xA0], request ''f1'' ''movie.mp4'' ''25000000'' ''0'' ''10000000'' ''3''),
      ([Document (js ''b'')], [0x0F, 0xA0], request ''f1'' ''movie.mp4'' ''25000000'' ''1'' ''10000000'' ''3''),
      ([Document (js ''c'')], [0x0F, 0xA0], request ''f1'' ''movie.mp4'' ''25000000'' ''2'' ''10000000'' ''3'')]
     empty_server"

text \<open>The server after the three one-byte chunks of the three-byte file \<open>f4\<close> have been uploaded.\<close>

definition tiny_server :: server where
  "tiny_server = run_uploads (\<lambda>s. s)
     [([Document (js ''r0'')], [0x0F, 0xA0], request ''f4'' ''t.bin'' ''3'' ''0'' ''1048576'' ''3''),
      ([Document (js ''r1'')], [0x0F, 0xA0], request ''f4'' ''t.bin'' ''3'' ''1'' ''1048576'' ''3''),
      ([Document (js ''r2'')], [0x0F, 0xA0], request ''f4'' ''t.bin'' ''3'' ''2'' ''1048576'' ''3'')]
     empty_server"

text \<open>
  A backend that resolves every reference, one that has lost the reference \<open>lost\<close>, and a
  remote store that answers every fetch with one byte.
\<close>

definition url_of :: "jsstring \<Rightarrow> jsstring option" where
  "url_of r = Some (js ''u'' @ r)"

definition url_unless :: "jsstring \<Rightarrow> jsstring \<Rightarrow> jsstring option" where
  "url_unless lost r = (if r = lost then None else url_of r)"

definition one_byte :: "jsstring \<Rightarrow> jsstring option \<Rightarrow> fetched" where
  "one_byte u rng = Complete [0x2A]"

text \<open>The references that the backend resolves.\<close>

definition resolved :: "(jsstring \<Rightarrow> jsstring option) \<Rightarrow> jsstring list \<Rightarrow> jsstring list" where
  "resolved resolve ids = filter (\<lambda>r. \<not> falsy (resolve r)) ids"

text \<open>The characters of a normalised base name: \<open>[a-z0-9-]\<close>.\<close>

definition isKebab :: "jschar \<Rightarrow> bool" where
  "isKebab c \<longleftrightarrow> (0x61 \<le> c \<and> c \<le> 0x7A) \<or> isDigit c \<or> c = 0x2D"

section \<open>Properties of the file name normalisation\<close>

lemma split_js_not_Nil [simp]: "split_js sep xs \<noteq> []"
  by (induction xs) (auto split: list.splits)

lemma split_js_no_sep: "sep \<notin> set xs \<Longrightarrow> split_js sep xs = [xs]"
  by (induction xs) auto

lemma split_js_append: "split_js sep (xs @ sep # ys) = split_js sep xs @ split_js sep ys"
  by (induction xs) (auto split: list.splits)

lemma last_split_js_append: "last (split_js sep (xs @ sep # ys)) = last (split_js sep ys)"
  by (simp add: split_js_append)

lemma last_split_js_no_sep: "sep \<notin> set (last (split_js sep xs))"
  by (induction xs) (auto split: list.splits)

lemma formatFileName_shape:
  "\<exists>base. formatFileName nfd f isChunk i = base @ 0x2E # last (split_js 0x2E f)"
  by (simp add: formatFileName_def Let_def js_def)

text \<open>
  Whatever the name, the extension of the result is the piece that \<open>pop()\<close> took: the
  text after the last dot, or the whole name when it has no dot.
\<close>

lemma extension_formatFileName:
  "extension_of (formatFileName nfd f isChunk i) = extension_of f"
proof -
  obtain base where b: "formatFileName nfd f isChunk i = base @ 0x2E # last (split_js 0x2E f)"
    using formatFileName_shape by blast
  have "split_js 0x2E (last (split_js 0x2E f)) = [last (split_js 0x2E f)]"
    by (rule split_js_no_sep) (rule last_split_js_no_sep)
  then show ?thesis
    by (simp add: extension_of_def b last_split_js_append)
qed

lemma set_replace_runs:
  "set (replace_runs p r xs) \<subseteq> set r \<union> {c \<in> set xs. \<not> p c}"
proof (induction p r xs rule: replace_runs.induct)
  case (1 p r)
  show ?case by simp
next
  case (2 p r c cs)
  have "set (dropWhile p cs) \<subseteq> set cs" by (auto dest: set_dropWhileD)
  with 2 show ?case by (auto split: if_splits)
qed

lemma lower_upper: "0x41 \<le> c \<Longrightarrow> c \<le> 0x5A \<Longrightarrow> 0x61 \<le> c + 0x20 \<and> c + 0x20 \<le> (0x7A::jschar)"
  by (simp add: word_le_nat_alt unat_word_ariths)

lemma toLowerCase_chars:
  assumes "\<forall>c\<in>set s. isAlnum c \<or> isSpace c \<or> c = 0x2D"
  shows "\<forall>c\<in>set (toLowerCase s). isKebab c \<or> isSpace c"
proof
  fix c assume "c \<in> set (toLowerCase s)"
  then obtain d where d: "d \<in> set s" and c: "c = (if 0x41 \<le> d \<and> d \<le> 0x5A then d + 0x20 else d)"
    by (auto simp: toLowerCase_def)
  from assms d have "isAlnum d \<or> isSpace d \<or> d = 0x2D" by blast
  then show "isKebab c \<or> isSpace c"
    using c lower_upper [of d] by (auto simp: isKebab_def isAlnum_def)
qed

lemma kebab_chars:
  "\<forall>c\<in>set (replace_runs (\<lambda>c. c = 0x2D) (js ''-'')
      (replace_runs isSpace (js ''-'') (toLowerCase (trim (filter (\<lambda>c. isAlnum c \<or> isSpace c \<or> c = 0x2D) s))))).
     isKebab c"
proof -
  let ?cleaned = "trim (filter (\<lambda>c. isAlnum c \<or> isSpace c \<or> c = 0x2D) s)"
  have "set ?cleaned \<subseteq> set (filter (\<lambda>c. isAlnum c \<or> isSpace c \<or> c = 0x2D) s)"
    unfolding trim_def by (auto dest!: set_dropWhileD)
  then have "\<forall>c\<in>set ?cleaned. isAlnum c \<or> isSpace c \<or> c = 0x2D" by auto
  from toLowerCase_chars [OF this]
  have l: "\<forall>c\<in>set (toLowerCase ?cleaned). isKebab c \<or> isSpace c" .
  have h: "set (js ''-'') = {0x2D}" by (simp add: js_def)
  have "\<forall>c\<in>set (replace_runs isSpace (js ''-'') (toLowerCase ?cleaned)). isKebab c"
    using set_replace_runs [of isSpace "js ''-''" "toLowerCase ?cleaned"] l h
    by (auto simp: isKebab_def)
  then show ?thesis
    using set_replace_runs [of "\<lambda>c. c = 0x2D" "js ''-''"
        "replace_runs isSpace (js ''-'') (toLowerCase ?cleaned)"] h
    by (auto simp: isKebab_def)
qed

text \<open>
  For a name with a dot the normalisation does what is documented: the text after the
  last dot is kept as it is, and what stands before it in the result is made of lower-case
  letters, digits and hyphens only.
\<close>

lemma formatFileName_dotted:
  assumes "0x2E \<notin> set e"
  shows "\<exists>k. formatFileName nfd (b @ 0x2E # e) False i = k @ 0x2E # e \<and> (\<forall>c\<in>set k. isKebab c)"
proof -
  have sp: "split_js 0x2E (b @ 0x2E # e) = split_js 0x2E b @ [e]"
    using assms by (simp add: split_js_append split_js_no_sep)
  show ?thesis
    using kebab_chars [of "filter (\<lambda>c. \<not> isCombiningMark c) (nfd (join_js (js ''.'') (split_js 0x2E b)))"]
    by (simp add: formatFileName_def sp Let_def js_def)
qed

text \<open>
  C5. \<open>formatFileName\<close> is claimed to give a name without a dot an empty extension. The
  code does not: for \<open>README\<close> the split has one piece, \<open>pop()\<close> takes it as the
  extension and the base name is empty, so the result is \<open>.README\<close>, with extension
  \<open>README\<close>, under every decomposition \<open>nfd\<close>. Nothing of such a name is cleaned:
  \<open>my notes!\<close> becomes \<open>.my notes!\<close>, with its space and its \<open>!\<close>. (The base name
  is empty here, so the decomposition is applied to the empty string only, which it
  leaves empty.)
\<close>

theorem formatFileName_dotless:
  "extension_of (formatFileName nfd (js ''README'') isChunk chunkIndex) = js ''README''
   \<and> formatFileName (\<lambda>s. s) (js ''README'') False (Num 0) = js ''.README''
   \<and> formatFileName (\<lambda>s. s) (js ''my notes!'') False (Num 0) = js ''.my notes!''"
proof -
  have "extension_of (js ''README'') = js ''README''"
    by (simp add: extension_of_def js_def)
  moreover have "formatFileName (\<lambda>s. s) (js ''README'') False (Num 0) = js ''.README''"
    by (simp add: formatFileName_def js_def trim_def toLowerCase_def)
  moreover have "formatFileName (\<lambda>s. s) (js ''my notes!'') False (Num 0) = js ''.my notes!''"
    by (simp add: formatFileName_def js_def trim_def toLowerCase_def)
  ultimately show ?thesis
    by (simp add: extension_formatFileName)
qed

section \<open>Properties of the upload handler\<close>

lemma post_u_invalid:
  "\<not> passes_validation req \<Longrightarrow>
   snd (post_u nfd replies random req srv) = srv
   \<and> (fst (post_u nfd replies random req srv) = Some MissingFields
      \<or> fst (post_u nfd replies random req srv) = Some ChunkSizeOutOfRange)"
  by (auto simp: post_u_def passes_validation_def Let_def)

lemma post_u_valid:
  "passes_validation req \<Longrightarrow>
   post_u nfd replies random req srv =
     (case files srv (the (req_fileId req)) of
        Some existing \<Rightarrow>
          if is_done existing then (Some AlreadyUploaded, srv)
          else ingest nfd replies random (the (chunk req)) (the (req_fileId req))
                 (the (req_fileName req)) (parseInt (the (req_chunkIndex req)))
                 (parseInt (the (req_totalChunks req))) existing srv
      | None \<Rightarrow>
          ingest nfd replies random (the (chunk req)) (the (req_fileId req))
            (the (req_fileName req)) (parseInt (the (req_chunkIndex req)))
            (parseInt (the (req_totalChunks req)))
            (new_metadata nfd (the (req_fileId req)) (the (req_fileName req))
               (parseInt (the (req_fileSize req))) (parseInt (the (req_chunkSize req)))
               (parseInt (the (req_totalChunks req))))
            (srv\<lparr>files := (files srv)(the (req_fileId req) \<mapsto>
                  new_metadata nfd (the (req_fileId req)) (the (req_fileName req))
                    (parseInt (the (req_fileSize req))) (parseInt (the (req_chunkSize req)))
                    (parseInt (the (req_totalChunks req)))),
                writes := Suc (writes srv)\<rparr>))"
  by (auto simp: post_u_def passes_validation_def Let_def split: option.splits)

lemma done_server_f1:
  "files done_server (js ''f1'') = Some \<lparr>is_done = True, fileId = js ''f1'',
      fileName = js ''a.bin'', fileSize = Some 10, chunkSize = Some 1048576,
      totalChunks = Some 1, deleteToken = Some (js ''0fa0''), fileIds = [js ''ref0'']\<rparr>"
  by code_simp

text \<open>
  C2, as the code has it. For a file identifier whose record is done, an upload request
  leaves the whole state as it was: no request goes to the backend (\<open>sent\<close>), nothing is
  written (\<open>writes\<close>, \<open>files\<close>). The status is 409 when the request passes validation; the
  validation comes first in the handler, and a request that fails it is answered 400.
\<close>

theorem conflict_guard:
  assumes "files srv fid = Some md" and "is_done md" and "req_fileId req = Some fid"
  shows "snd (post_u nfd replies random req srv) = srv
     \<and> map_option upload_status (fst (post_u nfd replies random req srv))
         = Some (if passes_validation req then 409 else 400)"
proof (cases "passes_validation req")
  case True
  with assms show ?thesis by (simp add: post_u_valid)
next
  case False
  with post_u_invalid [OF False, of nfd replies random srv] show ?thesis by auto
qed

theorem conflict_guard_witness:
  "files done_server (js ''f1'') \<noteq> None
   \<and> is_done (the (files done_server (js ''f1'')))
   \<and> snd (post_u (\<lambda>s. s) [Document (js ''ref1'')] []
            (request ''f1'' ''a.bin'' ''10'' ''0'' ''1048576'' ''1'') done_server) = done_server
   \<and> map_option upload_status (fst (post_u (\<lambda>s. s) [Document (js ''ref1'')] []
            (request ''f1'' ''a.bin'' ''10'' ''0'' ''1048576'' ''1'') done_server)) = Some 409"
proof -
  have v: "passes_validation (request ''f1'' ''a.bin'' ''10'' ''0'' ''1048576'' ''1'')"
    by code_simp
  have r: "req_fileId (request ''f1'' ''a.bin'' ''10'' ''0'' ''1048576'' ''1'') = Some (js ''f1'')"
    by (simp add: request_def)
  show ?thesis
    using conflict_guard [OF done_server_f1 _ r, of "\<lambda>s. s" "[Document (js ''ref1'')]" "[]"]
      done_server_f1 v by simp
qed

text \<open>
  C2 as stated fails: the record of \<open>f1\<close> is done, and a further upload for \<open>f1\<close> with a
  chunk size of 512 KiB is answered 400, not 409.
\<close>

theorem conflict_guard_counterexample:
  "is_done (the (files done_server (js ''f1'')))
   \<and> map_option upload_status (fst (post_u (\<lambda>s. s) [Document (js ''ref1'')] []
            (request ''f1'' ''a.bin'' ''10'' ''0'' ''524288'' ''1'') done_server)) = Some 400"
  by code_simp

lemma uploadToService_indep:
  "fst (uploadToService replies payload name) = fst (uploadToService replies payload' name')"
proof (induction replies)
  case Nil
  show ?case by simp
next
  case (Cons r rs)
  show ?case
  proof (cases r)
    case (Document ref)
    then show ?thesis by simp
  next
    case (Failure retry_after)
    with Cons show ?thesis by (auto split: prod.splits)
  qed
qed

lemma uploadToService_outcome:
  "fst (uploadToService replies payload name) = backend_outcome replies"
  unfolding backend_outcome_def by (rule uploadToService_indep)

lemma ingest_files:
  "files (snd (ingest nfd replies random payload fid fname idx tot md srv)) =
     (case backend_outcome replies of
        Stored ref \<Rightarrow>
          (files srv)(fid \<mapsto>
             (if js_eq idx (js_sub tot (Num 1))
              then md\<lparr>fileIds := fileIds md @ [ref], is_done := True,
                      deleteToken := Some (generateDeleteToken random)\<rparr>
              else md\<lparr>fileIds := fileIds md @ [ref]\<rparr>))
      | _ \<Rightarrow> files srv)"
  using uploadToService_outcome [of replies payload "formatFileName nfd fname True idx"]
  by (auto simp: ingest_def Let_def split: prod.splits upload_outcome.splits)

lemma ingest_response:
  "map_option upload_status (fst (ingest nfd replies random payload fid fname idx tot md srv)) =
     (case backend_outcome replies of
        Stored ref \<Rightarrow> Some 200 | Thrown \<Rightarrow> Some 500 | NoAnswer \<Rightarrow> None)"
  using uploadToService_outcome [of replies payload "formatFileName nfd fname True idx"]
  by (auto simp: ingest_def Let_def split: prod.splits upload_outcome.splits)

lemma post_u_files_valid:
  assumes "passes_validation req" and "req_fileId req = Some fid"
    and "\<forall>md. files srv fid = Some md \<longrightarrow> \<not> is_done md"
  shows "files (snd (post_u nfd replies random req srv)) =
     (let md = (case files srv fid of Some m \<Rightarrow> m | None \<Rightarrow> fresh_record nfd req) in
      case backend_outcome replies of
        Stored ref \<Rightarrow>
          (files srv)(fid \<mapsto>
             (if is_final req
              then md\<lparr>fileIds := fileIds md @ [ref], is_done := True,
                      deleteToken := Some (generateDeleteToken random)\<rparr>
              else md\<lparr>fileIds := fileIds md @ [ref]\<rparr>))
      | _ \<Rightarrow> (files srv)(fid \<mapsto> md))"
  using assms
  by (auto simp: post_u_valid ingest_files fresh_record_def is_final_def Let_def
           split: option.splits upload_outcome.splits)

lemma post_u_status_valid:
  assumes "passes_validation req" and "req_fileId req = Some fid"
    and "\<forall>md. files srv fid = Some md \<longrightarrow> \<not> is_done md"
  shows "map_option upload_status (fst (post_u nfd replies random req srv)) =
     (case backend_outcome replies of
        Stored ref \<Rightarrow> Some 200 | Thrown \<Rightarrow> Some 500 | NoAnswer \<Rightarrow> None)"
  using assms
  by (auto simp: post_u_valid ingest_response split: option.splits)

text \<open>
  C8, as the code has it. When the backend fails an upload with an error that is not a
  rate limit, the request is answered 500 and no reference is recorded: a record that
  was there is exactly what it was. When there was none, the handler has already written
  the new record before the upload, and it stays: not done, without token, without
  references. No other record is touched.
\<close>

theorem failed_upload_keeps_record:
  assumes "passes_validation req" and "req_fileId req = Some fid"
    and "\<forall>md. files srv fid = Some md \<longrightarrow> \<not> is_done md"
    and "backend_outcome replies = Thrown"
  shows "map_option upload_status (fst (post_u nfd replies random req srv)) = Some 500
     \<and> files (snd (post_u nfd replies random req srv)) =
         (case files srv fid of
            Some md \<Rightarrow> files srv
          | None \<Rightarrow> (files srv)(fid \<mapsto> fresh_record nfd req))
     \<and> \<not> is_done (fresh_record nfd req) \<and> deleteToken (fresh_record nfd req) = None
     \<and> fileIds (fresh_record nfd req) = []"
proof -
  have "files (snd (post_u nfd replies random req srv)) =
      (files srv)(fid \<mapsto> (case files srv fid of Some m \<Rightarrow> m | None \<Rightarrow> fresh_record nfd req))"
    using post_u_files_valid [OF assms(1-3), of nfd replies random] assms(4) by (simp add: Let_def)
  then have "files (snd (post_u nfd replies random req srv)) =
         (case files srv fid of
            Some md \<Rightarrow> files srv
          | None \<Rightarrow> (files srv)(fid \<mapsto> fresh_record nfd req))"
    by (auto split: option.splits)
  moreover have "map_option upload_status (fst (post_u nfd replies random req srv)) = Some 500"
    using post_u_status_valid [OF assms(1-3), of nfd replies random] assms(4) by simp
  ultimately show ?thesis
    by (simp add: fresh_record_def new_metadata_def)
qed

lemma pending_server_f2:
  "files pending_server (js ''f2'') = Some \<lparr>is_done = False, fileId = js ''f2'',
      fileName = js ''b.bin'', fileSize = Some 3000000, chunkSize = Some 1048576,
      totalChunks = Some 3, deleteToken = None, fileIds = [js ''ref0'']\<rparr>"
  by code_simp

theorem failed_upload_keeps_record_witness:
  "map_option upload_status (fst (post_u (\<lambda>s. s) [Failure (Some 2), Failure None] [0x0F, 0xA0]
       (request ''f2'' ''b.bin'' ''3000000'' ''1'' ''1048576'' ''3'') pending_server)) = Some 500
   \<and> files (snd (post_u (\<lambda>s. s) [Failure (Some 2), Failure None] [0x0F, 0xA0]
       (request ''f2'' ''b.bin'' ''3000000'' ''1'' ''1048576'' ''3'') pending_server))
      = files pending_server"
proof -
  have v: "passes_validation (request ''f2'' ''b.bin'' ''3000000'' ''1'' ''1048576'' ''3'')"
    by code_simp
  have r: "req_fileId (request ''f2'' ''b.bin'' ''3000000'' ''1'' ''1048576'' ''3'') = Some (js ''f2'')"
    by (simp add: request_def)
  have d: "\<forall>md. files pending_server (js ''f2'') = Some md \<longrightarrow> \<not> is_done md"
    by (simp add: pending_server_f2)
  have b: "backend_outcome [Failure (Some 2), Failure None] = Thrown"
    by (simp add: backend_outcome_def)
  show ?thesis
    using failed_upload_keeps_record [OF v r d b, of "\<lambda>s. s" "[0x0F, 0xA0]"]
    by (simp add: pending_server_f2)
qed

text \<open>
  C8 as stated fails for a first chunk: there is no record of \<open>f1\<close> before the call, the
  upload fails, and the call leaves a record of \<open>f1\<close> behind.
\<close>

theorem failed_upload_counterexample:
  "map_option upload_status (fst (post_u (\<lambda>s. s) [Failure None] [0x0F, 0xA0]
       (request ''f1'' ''a.bin'' ''10'' ''0'' ''1048576'' ''1'') empty_server)) = Some 500
   \<and> files empty_server (js ''f1'') = None
   \<and> files (snd (post_u (\<lambda>s. s) [Failure None] [0x0F, 0xA0]
       (request ''f1'' ''a.bin'' ''10'' ''0'' ''1048576'' ''1'') empty_server)) (js ''f1'')
      = Some \<lparr>is_done = False, fileId = js ''f1'', fileName = js ''a.bin'', fileSize = Some 10,
           chunkSize = Some 1048576, totalChunks = Some 1, deleteToken = None, fileIds = []\<rparr>"
  by code_simp

section \<open>The upload handler, record by record\<close>

lemma post_u_done_unchanged:
  assumes "files srv fid = Some md" and "is_done md" and "req_fileId req = Some fid"
  shows "snd (post_u nfd replies random req srv) = srv"
proof (cases "passes_validation req")
  case True
  with assms show ?thesis by (simp add: post_u_valid)
next
  case False
  then show ?thesis by (simp add: post_u_invalid)
qed

lemma fresh_record_fields [simp]:
  "\<not> is_done (fresh_record nfd req)" "deleteToken (fresh_record nfd req) = None"
  "fileIds (fresh_record nfd req) = []"
  by (simp_all add: fresh_record_def new_metadata_def)

lemma not_record_done: "\<not> record_done srv fid \<Longrightarrow> \<forall>md. files srv fid = Some md \<longrightarrow> \<not> is_done md"
  by (auto simp: record_done_def)

lemma post_u_other:
  assumes "req_fileId req \<noteq> Some f"
  shows "files (snd (post_u nfd replies random req srv)) f = files srv f"
proof (cases "passes_validation req")
  case False
  then show ?thesis by (simp add: post_u_invalid)
next
  case True
  then obtain fid where fid: "req_fileId req = Some fid"
    by (auto simp: passes_validation_def falsy_def)
  with assms have ne: "f \<noteq> fid" by auto
  show ?thesis
  proof (cases "\<exists>md. files srv fid = Some md \<and> is_done md")
    case True
    then show ?thesis using post_u_done_unchanged [OF _ _ fid] by auto
  next
    case False
    then have nd: "\<forall>md. files srv fid = Some md \<longrightarrow> \<not> is_done md" by simp
    show ?thesis
      unfolding post_u_files_valid [OF True fid nd] Let_def using ne
      by (cases "backend_outcome replies") simp_all
  qed
qed

lemma post_u_same:
  assumes "req_fileId req = Some fid"
  shows "files (snd (post_u nfd replies random req srv)) fid =
    (if \<not> passes_validation req \<or> record_done srv fid
     then files srv fid
     else Some (case backend_outcome replies of
                  Stored ref \<Rightarrow>
                    if is_final req
                    then (base_record nfd req srv)\<lparr>fileIds := fileIds (base_record nfd req srv) @ [ref],
                           is_done := True, deleteToken := Some (generateDeleteToken random)\<rparr>
                    else (base_record nfd req srv)\<lparr>fileIds := fileIds (base_record nfd req srv) @ [ref]\<rparr>
                | _ \<Rightarrow> base_record nfd req srv))"
proof (cases "passes_validation req")
  case False
  then show ?thesis by (simp add: post_u_invalid)
next
  case True
  show ?thesis
  proof (cases "record_done srv fid")
    case d: True
    then obtain md where "files srv fid = Some md" "is_done md"
      by (auto simp: record_done_def split: option.splits)
    then show ?thesis using post_u_done_unchanged [OF _ _ assms] d by simp
  next
    case False
    note nd = not_record_done [OF False]
    have b: "base_record nfd req srv = (case files srv fid of Some m \<Rightarrow> m | None \<Rightarrow> fresh_record nfd req)"
      by (simp add: base_record_def assms)
    show ?thesis
      unfolding post_u_files_valid [OF True assms nd] Let_def b [symmetric]
      using True False by (cases "backend_outcome replies") simp_all
  qed
qed

lemma base_record_flags:
  assumes "token_iff_done srv" and "req_fileId req = Some fid" and "\<not> record_done srv fid"
  shows "\<not> is_done (base_record nfd req srv) \<and> deleteToken (base_record nfd req srv) = None"
proof (cases "files srv fid")
  case None
  with assms(2) show ?thesis by (simp add: base_record_def)
next
  case (Some md)
  with assms(3) have "\<not> is_done md" by (simp add: record_done_def)
  moreover from assms(1) Some have "(deleteToken md \<noteq> None) = is_done md"
    unfolding token_iff_done_def by blast
  ultimately show ?thesis using Some assms(2) by (simp add: base_record_def)
qed

lemma post_u_keeps_token_iff_done:
  assumes "token_iff_done srv"
  shows "token_iff_done (snd (post_u nfd replies random req srv))"
  unfolding token_iff_done_def
proof (intro allI impI)
  fix f md'
  assume a: "files (snd (post_u nfd replies random req srv)) f = Some md'"
  have old: "files srv f = Some md' \<Longrightarrow> (deleteToken md' \<noteq> None) = is_done md'"
    using assms unfolding token_iff_done_def by blast
  show "(deleteToken md' \<noteq> None) = is_done md'"
  proof (cases "req_fileId req = Some f")
    case False
    then have "files srv f = Some md'" using a by (simp add: post_u_other)
    then show ?thesis by (rule old)
  next
    case True
    show ?thesis
    proof (cases "\<not> passes_validation req \<or> record_done srv f")
      case c: True
      have "files (snd (post_u nfd replies random req srv)) f = files srv f"
        using c by (simp add: post_u_same [OF True])
      with a have "files srv f = Some md'" by simp
      then show ?thesis by (rule old)
    next
      case False
      then have nd: "\<not> record_done srv f" by simp
      note fl = base_record_flags [OF assms True nd, of nfd]
      have "files (snd (post_u nfd replies random req srv)) f =
              Some (case backend_outcome replies of
                  Stored ref \<Rightarrow>
                    if is_final req
                    then (base_record nfd req srv)\<lparr>fileIds := fileIds (base_record nfd req srv) @ [ref],
                           is_done := True, deleteToken := Some (generateDeleteToken random)\<rparr>
                    else (base_record nfd req srv)\<lparr>fileIds := fileIds (base_record nfd req srv) @ [ref]\<rparr>
                | _ \<Rightarrow> base_record nfd req srv)"
        using False by (simp add: post_u_same [OF True])
      with a have "md' = (case backend_outcome replies of
                  Stored ref \<Rightarrow>
                    if is_final req
                    then (base_record nfd req srv)\<lparr>fileIds := fileIds (base_record nfd req srv) @ [ref],
                           is_done := True, deleteToken := Some (generateDeleteToken random)\<rparr>
                    else (base_record nfd req srv)\<lparr>fileIds := fileIds (base_record nfd req srv) @ [ref]\<rparr>
                | _ \<Rightarrow> base_record nfd req srv)"
        by simp
      then show ?thesis using fl
        by (cases "backend_outcome replies") (simp_all split: if_splits)
    qed
  qed
qed

lemma delete_files:
  "files (snd (delete_fileId fid token srv)) f = files srv f
   \<or> files (snd (delete_fileId fid token srv)) f = None"
  by (simp add: delete_fileId_def split: option.splits)

lemma delete_keeps_token_iff_done:
  assumes "token_iff_done srv"
  shows "token_iff_done (snd (delete_fileId fid token srv))"
  unfolding token_iff_done_def
proof (intro allI impI)
  fix f md'
  assume a: "files (snd (delete_fileId fid token srv)) f = Some md'"
  with delete_files [of fid token srv f] have "files srv f = Some md'" by auto
  with assms show "(deleteToken md' \<noteq> None) = is_done md'"
    unfolding token_iff_done_def by blast
qed

lemma reachable_token_iff_done: "reachable srv \<Longrightarrow> token_iff_done srv"
proof (induction rule: reachable.induct)
  case start
  show ?case by (simp add: token_iff_done_def)
next
  case (upload srv nfd replies random req)
  then show ?case by (simp add: post_u_keeps_token_iff_done)
next
  case (delete srv fid token)
  then show ?case by (simp add: delete_keeps_token_iff_done)
qed

section \<open>Completion, deletion and growth of records\<close>

lemma reachable_empty: "reachable empty_server"
  unfolding empty_server_def by (rule reachable.start)

lemma reachable_pending: "reachable pending_server"
  unfolding pending_server_def by (rule reachable.upload) (rule reachable_empty)

lemma reachable_done: "reachable done_server"
  unfolding done_server_def by (rule reachable.upload) (rule reachable_empty)

text \<open>
  C3. In every state that upload, download and delete requests can lead to, a record has
  a delete token iff it is done. Records are created not done and without token. An
  upload request that passes validation, with a chunk index and a chunk count below
  \<open>2^53\<close>, for a record that is absent or not done, leaves a record that is done exactly
  when the backend stored the chunk and \<open>chunkIndex = totalChunks - 1\<close> held for the
  numbers of the request; the token is the freshly generated one then, and \<open>null\<close>
  otherwise: both are set in the one write.
\<close>

theorem token_iff_done_reachable:
  assumes "reachable srv"
  shows "(\<forall>f md. files srv f = Some md \<longrightarrow> (deleteToken md \<noteq> None) = is_done md)
    \<and> \<not> is_done (fresh_record nfd req) \<and> deleteToken (fresh_record nfd req) = None
    \<and> (passes_validation req \<and> exact_counts req \<and> req_fileId req = Some fid
         \<and> \<not> record_done srv fid \<longrightarrow>
        (\<exists>md'. files (snd (post_u nfd replies random req srv)) fid = Some md'
           \<and> is_done md' = ((\<exists>ref. backend_outcome replies = Stored ref) \<and> is_final req)
           \<and> deleteToken md' = (if is_done md' then Some (generateDeleteToken random) else None)))"
proof -
  have inv: "token_iff_done srv" using assms by (rule reachable_token_iff_done)
  have step: "\<exists>md'. files (snd (post_u nfd replies random req srv)) fid = Some md'
           \<and> is_done md' = ((\<exists>ref. backend_outcome replies = Stored ref) \<and> is_final req)
           \<and> deleteToken md' = (if is_done md' then Some (generateDeleteToken random) else None)"
    if v: "passes_validation req" and f: "req_fileId req = Some fid" and nd: "\<not> record_done srv fid"
  proof -
    note fl = base_record_flags [OF inv f nd, of nfd]
    show ?thesis
      using v nd fl
      by (cases "backend_outcome replies") (simp_all add: post_u_same [OF f])
  qed
  from inv step show ?thesis
    by (simp add: token_iff_done_def)
qed

lemma pending_not_done: "\<not> record_done pending_server (js ''f2'')"
  by (simp add: record_done_def pending_server_f2)

theorem token_iff_done_reachable_witness:
  "reachable pending_server
   \<and> files pending_server (js ''f2'') \<noteq> None
   \<and> (deleteToken (the (files pending_server (js ''f2''))) \<noteq> None)
       = is_done (the (files pending_server (js ''f2'')))
   \<and> (\<exists>md'. files (snd (post_u (\<lambda>s. s) [Document (js ''ref2'')] [0x0F, 0xA0]
               (request ''f2'' ''b.bin'' ''3000000'' ''2'' ''1048576'' ''3'') pending_server)) (js ''f2'')
             = Some md'
          \<and> is_done md' \<and> deleteToken md' = Some (js ''0fa0''))"
proof -
  have v: "passes_validation (request ''f2'' ''b.bin'' ''3000000'' ''2'' ''1048576'' ''3'')"
    by code_simp
  have r: "req_fileId (request ''f2'' ''b.bin'' ''3000000'' ''2'' ''1048576'' ''3'') = Some (js ''f2'')"
    by (simp add: request_def)
  have fin: "is_final (request ''f2'' ''b.bin'' ''3000000'' ''2'' ''1048576'' ''3'')"
    by code_simp
  have ex: "exact_counts (request ''f2'' ''b.bin'' ''3000000'' ''2'' ''1048576'' ''3'')"
    by code_simp
  have b: "backend_outcome [Document (js ''ref2'')] = Stored (js ''ref2'')"
    by (simp add: backend_outcome_def)
  have t: "generateDeleteToken [0x0F, 0xA0] = js ''0fa0''"
    by code_simp
  show ?thesis
    using token_iff_done_reachable [OF reachable_pending, of "\<lambda>s. s"
        "request ''f2'' ''b.bin'' ''3000000'' ''2'' ''1048576'' ''3''" "js ''f2''"
        "[Document (js ''ref2'')]" "[0x0F, 0xA0]"]
      v r fin ex b t pending_not_done reachable_pending pending_server_f2
    by auto
qed

lemma completing_request_valid: "fid \<noteq> [] \<Longrightarrow> passes_validation (completing_request fid)"
proof -
  have "parseInt (js ''1048576'') = Num 1048576" by code_simp
  then show "fid \<noteq> [] \<Longrightarrow> passes_validation (completing_request fid)"
    by (simp add: passes_validation_def completing_request_def falsy_def) (simp add: js_def)
qed

lemma completing_request_final: "is_final (completing_request fid)"
proof -
  have "js_eq (parseInt (js ''0'')) (js_sub (parseInt (js ''1'')) (Num 1))" by code_simp
  then show ?thesis by (simp add: is_final_def completing_request_def)
qed

text \<open>
  C9. For a record that is there and not done, whether an accepted chunk completes it
  is decided by \<open>is_final\<close>, which reads the request only (its chunk index and chunk
  count, taken below \<open>2^53\<close>): the stored \<open>totalChunks\<close> is neither consulted nor changed.
  So the request \<open>chunkIndex = 0, totalChunks = 1\<close> completes any such record, wherever its
  own count stands.
\<close>

theorem completion_from_request:
  assumes "files srv fid = Some md" and "\<not> is_done md"
    and "passes_validation req" and "req_fileId req = Some fid"
    and "backend_outcome replies = Stored ref"
  shows "(exact_counts req \<longrightarrow>
       files (snd (post_u nfd replies random req srv)) fid =
         Some (if is_final req
               then md\<lparr>fileIds := fileIds md @ [ref], is_done := True,
                       deleteToken := Some (generateDeleteToken random)\<rparr>
               else md\<lparr>fileIds := fileIds md @ [ref]\<rparr>))
    \<and> (fid \<noteq> [] \<longrightarrow>
        files (snd (post_u nfd replies random (completing_request fid) srv)) fid =
          Some (md\<lparr>fileIds := fileIds md @ [ref], is_done := True,
                   deleteToken := Some (generateDeleteToken random)\<rparr>))"
proof -
  have nd: "\<not> record_done srv fid" using assms(1,2) by (simp add: record_done_def)
  have b: "base_record nfd r srv = md" if "req_fileId r = Some fid" for r
    using that assms(1) by (simp add: base_record_def)
  have one: "files (snd (post_u nfd replies random req srv)) fid =
      Some (if is_final req
            then md\<lparr>fileIds := fileIds md @ [ref], is_done := True,
                    deleteToken := Some (generateDeleteToken random)\<rparr>
            else md\<lparr>fileIds := fileIds md @ [ref]\<rparr>)"
    using assms(3,5) nd by (simp add: post_u_same [OF assms(4)] b [OF assms(4)])
  have f: "req_fileId (completing_request fid) = Some fid"
    by (simp add: completing_request_def)
  have two: "files (snd (post_u nfd replies random (completing_request fid) srv)) fid =
          Some (md\<lparr>fileIds := fileIds md @ [ref], is_done := True,
                   deleteToken := Some (generateDeleteToken random)\<rparr>)" if "fid \<noteq> []"
    using completing_request_valid [OF that] completing_request_final [of fid] assms(5) nd
    by (simp add: post_u_same [OF f] b [OF f])
  from one two show ?thesis by simp
qed

text \<open>
  The record of \<open>f2\<close> declares three chunks and has chunk 0 only; the request declaring
  one chunk marks it done, and the stored count is still 3.
\<close>

theorem completion_from_request_witness:
  "totalChunks (the (files pending_server (js ''f2''))) = Some 3
   \<and> fileIds (the (files pending_server (js ''f2''))) = [js ''ref0'']
   \<and> sent pending_server = [js ''b-0.bin'']
   \<and> files (snd (post_u (\<lambda>s. s) [Document (js ''ref1'')] [0x0F, 0xA0]
              (completing_request (js ''f2'')) pending_server)) (js ''f2'')
      = Some \<lparr>is_done = True, fileId = js ''f2'', fileName = js ''b.bin'',
           fileSize = Some 3000000, chunkSize = Some 1048576, totalChunks = Some 3,
           deleteToken = Some (js ''0fa0''), fileIds = [js ''ref0'', js ''ref1'']\<rparr>"
proof -
  have nd: "\<not> is_done \<lparr>is_done = False, fileId = js ''f2'',
      fileName = js ''b.bin'', fileSize = Some 3000000, chunkSize = Some 1048576,
      totalChunks = Some 3, deleteToken = None, fileIds = [js ''ref0'']\<rparr>"
    by simp
  have ne: "js ''f2'' \<noteq> []" by (simp add: js_def)
  have v: "passes_validation (completing_request (js ''f2''))"
    using ne by (rule completing_request_valid)
  have r: "req_fileId (completing_request (js ''f2'')) = Some (js ''f2'')"
    by (simp add: completing_request_def)
  have b: "backend_outcome [Document (js ''ref1'')] = Stored (js ''ref1'')"
    by (simp add: backend_outcome_def)
  have t: "generateDeleteToken [0x0F, 0xA0] = js ''0fa0''"
    by code_simp
  have s: "sent pending_server = [js ''b-0.bin'']"
    by code_simp
  have ex: "exact_counts (completing_request (js ''f2''))"
    by code_simp
  show ?thesis
    using completion_from_request [OF pending_server_f2 nd v r b, of "\<lambda>s. s" "[0x0F, 0xA0]"]
      ne t s ex completing_request_final [of "js ''f2''"]
    by (simp add: pending_server_f2)
qed

text \<open>
  C6, as the code has it. With a token in the request and a record whose \<open>deleteToken\<close>
  is \<open>null\<close>, the handler answers 400 (\<open>This file cannot be deleted\<close>) and leaves the
  state as it is.
\<close>

theorem delete_before_completion:
  assumes "\<not> falsy token" and "files srv fid = Some md" and "deleteToken md = None"
  shows "delete_fileId fid token srv = (CannotBeDeleted, srv)
     \<and> delete_status (fst (delete_fileId fid token srv)) = 400"
  using assms by (simp add: delete_fileId_def falsy_def)

theorem delete_before_completion_witness:
  "delete_fileId (js ''f2'') (Some (js ''0fa0'')) pending_server = (CannotBeDeleted, pending_server)
   \<and> delete_status (fst (delete_fileId (js ''f2'') (Some (js ''0fa0'')) pending_server)) = 400"
proof -
  have t: "\<not> falsy (Some (js ''0fa0''))" by (simp add: falsy_def js_def)
  have d: "deleteToken \<lparr>is_done = False, fileId = js ''f2'',
      fileName = js ''b.bin'', fileSize = Some 3000000, chunkSize = Some 1048576,
      totalChunks = Some 3, deleteToken = None, fileIds = [js ''ref0'']\<rparr> = None"
    by simp
  show ?thesis
    using delete_before_completion [OF t pending_server_f2 d] by simp
qed

text \<open>C6 as stated fails: the status is not 403.\<close>

theorem delete_before_completion_counterexample:
  "deleteToken (the (files pending_server (js ''f2''))) = None
   \<and> delete_status (fst (delete_fileId (js ''f2'') (Some (js ''0fa0'')) pending_server)) \<noteq> 403"
  by code_simp








section \<open>Properties of the download handler\<close>

lemma slice_js_nonneg:
  "0 \<le> a \<Longrightarrow> 0 \<le> b \<Longrightarrow> slice_js (Num a) (Num b) xs = take (nat b - nat a) (drop (nat a) xs)"
  by (auto simp: slice_js_def Let_def min_def)

lemma sgn_mult_mod: "0 \<le> (a::int) \<Longrightarrow> sgn a * (a mod c) = a mod c"
  by (cases "a = 0") (simp_all add: sgn_if)

lemma ceil_nonneg: "0 \<le> (e::int) \<Longrightarrow> 0 < c \<Longrightarrow> 0 \<le> - ((- e) div c)"
proof -
  assume "0 \<le> e" and "0 < c"
  then have "(- e) div c \<le> 0" by (simp add: div_nonpos_pos_le0)
  then show "0 \<le> - ((- e) div c)" by simp
qed

lemma hd_split_js_no_sep: "sep \<notin> set (hd (split_js sep xs))"
  by (induction xs) (auto split: list.splits)

lemma digit_val_nonneg: "isDigit c \<Longrightarrow> 0 \<le> digit_val c"
  by (simp add: isDigit_def digit_val_def word_le_def)

lemma foldl_digits_nonneg:
  "\<forall>c\<in>set ds. isDigit c \<Longrightarrow> 0 \<le> a \<Longrightarrow> 0 \<le> foldl (\<lambda>a c. 10 * a + digit_val c) a ds"
proof (induction ds arbitrary: a)
  case Nil
  then show ?case by simp
next
  case (Cons d ds)
  then have "0 \<le> 10 * a + digit_val d" using digit_val_nonneg [of d] by simp
  with Cons show ?case by simp
qed

lemma parseInt_nonneg:
  assumes "0x2D \<notin> set d" and "parseInt d = Num n"
  shows "0 \<le> n"
proof -
  define t where "t = dropWhile isSpace d"
  have "set t \<subseteq> set d" unfolding t_def by (rule set_dropWhileD [THEN subsetI])
  then have "\<not> (t \<noteq> [] \<and> hd t = 0x2D)" using assms(1) by (cases t) auto
  moreover have "\<forall>c\<in>set (takeWhile isDigit u). isDigit c" for u
    by (auto dest: set_takeWhileD)
  ultimately show ?thesis
    using assms(2) foldl_digits_nonneg [of _ 0]
    by (auto simp: parseInt_def Let_def t_def split: if_splits)
qed

lemma range_start_nonneg:
  assumes "range_start (Some r) = Inr (Some (Num s))"
  shows "0 \<le> s"
proof -
  from assms obtain v where "parseInt (hd (split_js 0x2D v)) = Num s"
    by (auto simp: range_start_def split: if_splits list.splits)
  with hd_split_js_no_sep [of "0x2D" v] show ?thesis
    by (rule parseInt_nonneg)
qed

lemma plan_of_range:
  assumes "chunkSize md = Some c" and "0 < c" and "fileSize md = Some f" and "1 \<le> f"
    and "r \<noteq> []" and "range_start (Some r) = Inr (Some (Num s))" and "0 \<le> s"
  shows "range_end md (Some r) (Some (Num s)) = Some (Num (min (s + c) (f - 1)))
    \<and> download_plan md urls (Some r) =
        Inr \<lparr>status = 206,
             content_length = toString_num (Num (min (s + c) (f - 1) - s + 1)),
             content_range = Some (js ''bytes '' @ toString_num (Num s) @ js ''-''
                @ toString_num (Num (min (s + c) (f - 1))) @ js ''/'' @ toString_num (Num f)),
             parts = set_offsets (Num (s mod c)) (Num (min (s + c) (f - 1) mod c))
                (map whole (take (nat (- ((- min (s + c) (f - 1)) div c)) - nat (s div c))
                              (drop (nat (s div c)) urls)))\<rparr>
    \<and> s div c = \<lfloor>real_of_int s / real_of_int c\<rfloor>
    \<and> - ((- min (s + c) (f - 1)) div c) = \<lceil>real_of_int (min (s + c) (f - 1)) / real_of_int c\<rceil>"
proof -
  define e where "e = min (s + c) (f - 1)"
  have e0: "0 \<le> e" using assms(2,4,7) by (simp add: e_def)
  have re: "range_end md (Some r) (Some (Num s)) = Some (Num e)"
    using assms(1,3,5) by (simp add: range_end_def falsy_def js_sub_def e_def)
  have s0: "0 \<le> s div c" using assms(2,7) by (simp add: pos_imp_zdiv_nonneg_iff)
  have c0: "0 \<le> - ((- e) div c)" using e0 assms(2) by (rule ceil_nonneg)
  have pl: "partsToDownload md urls (Some r) (Some (Num s)) (Some (Num e)) =
        \<lparr>status = 206,
             content_length = toString_num (Num (e - s + 1)),
             content_range = Some (js ''bytes '' @ toString_num (Num s) @ js ''-''
                @ toString_num (Num e) @ js ''/'' @ toString_num (Num f)),
             parts = set_offsets (Num (s mod c)) (Num (e mod c))
                (map whole (take (nat (- ((- e) div c)) - nat (s div c))
                              (drop (nat (s div c)) urls)))\<rparr>"
    using assms(1,2,3,5,7) e0
    by (simp add: partsToDownload_def falsy_def Let_def floor_div_def ceil_div_def js_sub_def
        slice_js_nonneg [OF s0 c0] sgn_mult_mod)
  have "download_plan md urls (Some r) = Inr (partsToDownload md urls (Some r) (Some (Num s)) (Some (Num e)))"
    by (simp add: download_plan_def assms(6) re)
  moreover have "s div c = \<lfloor>real_of_int s / real_of_int c\<rfloor>"
    by (simp add: floor_divide_of_int_eq)
  moreover have "- ((- e) div c) = \<lceil>real_of_int e / real_of_int c\<rceil>"
    by (simp add: ceiling_divide_eq_div)
  ultimately show ?thesis
    using re pl unfolding e_def by simp
qed

text \<open>
  C1, as the code has it. For a record with a positive chunk size \<open>c\<close> and a file size
  \<open>f\<close> of at least 1, and a range header that is read as the integer start \<open>s\<close> (which
  is never negative: the text read ends before the first \<open>-\<close>), with \<open>s + c\<close> and \<open>f\<close>
  below \<open>2^53\<close>, so that every number formed is one a double holds exactly: the end is
  \<open>min (s + c) (f - 1)\<close>, the status is 206, \<open>Content-Length\<close> is \<open>end - s + 1\<close>,
  \<open>Content-Range\<close> is \<open>bytes s-end/f\<close>, and the parts are the URLs from index
  \<open>floor (s / c)\<close> up to (not including) index \<open>ceil (end / c)\<close>, the first fetched from
  offset \<open>s mod c\<close> and the last up to offset \<open>end mod c\<close>. For the file of 25000000 bytes
  and \<open>bytes=5000000-\<close> this gives the end 15000000 (not 14999999), the last offset
  5000000, the length 10000001 and \<open>bytes 5000000-15000000/25000000\<close>.
\<close>

theorem range_arithmetic:
  assumes "chunkSize md = Some c" and "0 < c" and "fileSize md = Some f" and "1 \<le> f"
    and "r \<noteq> []" and "range_start (Some r) = Inr (Some (Num s))"
    and "s + c < 9007199254740992" and "f < 9007199254740992"
  shows "range_end md (Some r) (Some (Num s)) = Some (Num (min (s + c) (f - 1)))
    \<and> download_plan md urls (Some r) =
        Inr \<lparr>status = 206,
             content_length = toString_num (Num (min (s + c) (f - 1) - s + 1)),
             content_range = Some (js ''bytes '' @ toString_num (Num s) @ js ''-''
                @ toString_num (Num (min (s + c) (f - 1))) @ js ''/'' @ toString_num (Num f)),
             parts = set_offsets (Num (s mod c)) (Num (min (s + c) (f - 1) mod c))
                (map whole (take (nat (- ((- min (s + c) (f - 1)) div c)) - nat (s div c))
                              (drop (nat (s div c)) urls)))\<rparr>
    \<and> s div c = \<lfloor>real_of_int s / real_of_int c\<rfloor>
    \<and> - ((- min (s + c) (f - 1)) div c) = \<lceil>real_of_int (min (s + c) (f - 1)) / real_of_int c\<rceil>"
  using assms(1-6) range_start_nonneg [OF assms(6)] by (rule plan_of_range)

lemmas eval_defs = download_plan_def range_start_def range_end_def partsToDownload_def falsy_def
  js_def parseInt_def isSpace_def isDigit_def digit_val_def Let_def floor_div_def ceil_div_def
  js_sub_def slice_js_def set_offsets_def whole_def digits.simps fetch_range_def or_zero_def

lemma range_start_5000000: "range_start (Some (js ''bytes=5000000-'')) = Inr (Some (Num 5000000))"
  by (simp add: eval_defs)

theorem range_arithmetic_witness:
  "range_end md25 (Some (js ''bytes=5000000-'')) (Some (Num 5000000)) = Some (Num 15000000)
   \<and> download_plan md25 [js ''ua'', js ''ub'', js ''uc''] (Some (js ''bytes=5000000-''))
      = Inr \<lparr>status = 206, content_length = js ''10000001'',
             content_range = Some (js ''bytes 5000000-15000000/25000000''),
             parts = [\<lparr>url = js ''ua'', part_start = Some (Num 5000000), part_end = None\<rparr>,
                      \<lparr>url = js ''ub'', part_start = None, part_end = Some (Num 5000000)\<rparr>]\<rparr>"
proof -
  have ne: "js ''bytes=5000000-'' \<noteq> []" by (simp add: js_def)
  have "range_end md25 (Some (js ''bytes=5000000-'')) (Some (Num 5000000))
          = Some (Num (min (5000000 + 10000000) (25000000 - 1)))
    \<and> download_plan md25 [js ''ua'', js ''ub'', js ''uc''] (Some (js ''bytes=5000000-'')) =
        Inr \<lparr>status = 206,
             content_length = toString_num (Num (min (5000000 + 10000000) (25000000 - 1) - 5000000 + 1)),
             content_range = Some (js ''bytes '' @ toString_num (Num 5000000) @ js ''-''
                @ toString_num (Num (min (5000000 + 10000000) (25000000 - 1))) @ js ''/''
                @ toString_num (Num 25000000)),
             parts = set_offsets (Num (5000000 mod 10000000))
                (Num (min (5000000 + 10000000) (25000000 - 1) mod 10000000))
                (map whole (take (nat (- ((- min (5000000 + 10000000) (25000000 - 1)) div 10000000))
                                  - nat (5000000 div 10000000))
                              (drop (nat (5000000 div 10000000)) [js ''ua'', js ''ub'', js ''uc''])))\<rparr>"
    using range_arithmetic [of md25 10000000 25000000 "js ''bytes=5000000-''" 5000000
        "[js ''ua'', js ''ub'', js ''uc'']", OF _ _ _ _ ne range_start_5000000]
    by (simp add: md25_def)
  then show ?thesis
    by (simp add: set_offsets_def whole_def digits.simps js_def)
qed

text \<open>
  C1 as stated fails in its example: the end is not 14999999, and with it the last
  offset, the length and the \<open>Content-Range\<close> header are others.
\<close>

theorem range_example_counterexample:
  "range_end md25 (Some (js ''bytes=5000000-'')) (Some (Num 5000000)) \<noteq> Some (Num 14999999)
   \<and> download_plan md25 [js ''ua'', js ''ub'', js ''uc''] (Some (js ''bytes=5000000-''))
      = Inr \<lparr>status = 206, content_length = js ''10000001'',
             content_range = Some (js ''bytes 5000000-15000000/25000000''),
             parts = [\<lparr>url = js ''ua'', part_start = Some (Num 5000000), part_end = None\<rparr>,
                      \<lparr>url = js ''ub'', part_start = None, part_end = Some (Num 5000000)\<rparr>]\<rparr>
   \<and> fetch_range \<lparr>url = js ''ua'', part_start = Some (Num 5000000), part_end = None\<rparr>
      = Some (js ''bytes=5000000-'')
   \<and> fetch_range \<lparr>url = js ''ub'', part_start = None, part_end = Some (Num 5000000)\<rparr>
      = Some (js ''bytes=0-5000000'')"
  by (simp add: eval_defs md25_def)

lemma split_js_with_sep:
  "sep \<in> set xs \<Longrightarrow> \<exists>p v ps. split_js sep xs = p # v # ps"
proof (induction xs)
  case Nil
  then show ?case by simp
next
  case (Cons c cs)
  show ?case
  proof (cases "c = sep")
    case True
    obtain q qs where "split_js sep cs = q # qs"
      using split_js_not_Nil [of sep cs] by (cases "split_js sep cs") auto
    with True show ?thesis by simp
  next
    case False
    with Cons.prems have "sep \<in> set cs" by simp
    from Cons.IH [OF this] obtain p v ps where "split_js sep cs = p # v # ps" by blast
    with False show ?thesis by simp
  qed
qed

lemma hd_split_js_prefix:
  "sep \<notin> set xs \<Longrightarrow> hd (split_js sep (xs @ ys)) = xs @ hd (split_js sep ys)"
  by (induction xs) (auto split: list.splits)

lemma range_start_absent: "falsy rangeStr \<Longrightarrow> range_start rangeStr = Inr None"
  by (simp add: range_start_def)

lemma range_start_no_eq:
  "r \<noteq> [] \<Longrightarrow> 0x3D \<notin> set r \<Longrightarrow> range_start (Some r) = Inl TypeError"
  by (simp add: range_start_def falsy_def split_js_no_sep)

lemma range_start_eq:
  assumes "0x3D \<in> set r"
  shows "\<exists>n. range_start (Some r) = Inr (Some n)"
proof -
  from assms have "r \<noteq> []" by auto
  moreover from split_js_with_sep [OF assms]
  obtain p v ps where "split_js 0x3D r = p # v # ps" by blast
  ultimately show ?thesis by (simp add: range_start_def falsy_def)
qed

lemma range_start_prefix:
  assumes "0x3D \<notin> set a" and "0x3D \<notin> set d" and "0x2D \<notin> set d"
  shows "range_start (Some (a @ 0x3D # d @ 0x2D # rest)) = Inr (Some (parseInt d))"
proof -
  obtain q qs where q: "split_js 0x3D (d @ 0x2D # rest) = q # qs"
    using split_js_not_Nil [of "0x3D" "d @ 0x2D # rest"]
    by (cases "split_js 0x3D (d @ 0x2D # rest)") auto
  have "hd (split_js 0x3D (d @ 0x2D # rest)) = d @ hd (split_js 0x3D (0x2D # rest))"
    using assms(2) by (rule hd_split_js_prefix)
  also have "hd (split_js 0x3D (0x2D # rest)) = 0x2D # hd (split_js (0x3D::jschar) rest)"
    by (simp split: list.splits)
  finally have "q = d @ 0x2D # hd (split_js 0x3D rest)" using q by simp
  then have "hd (split_js 0x2D q) = d"
    using assms(3) by (simp add: split_js_append split_js_no_sep)
  moreover have "split_js 0x3D (a @ 0x3D # d @ 0x2D # rest) = a # q # qs"
    using assms(1) q by (simp add: split_js_append split_js_no_sep)
  ultimately show ?thesis
    by (simp add: range_start_def falsy_def)
qed

lemma ranged_plan:
  "r \<noteq> [] \<Longrightarrow> range_start (Some r) = Inr (Some n) \<Longrightarrow>
   \<exists>pl. download_plan md urls (Some r) = Inr pl \<and> status pl = 206 \<and> content_range pl \<noteq> None"
  by (simp add: download_plan_def range_end_def partsToDownload_def falsy_def Let_def)

lemma plan_depends_on_start:
  "r \<noteq> [] \<Longrightarrow> r' \<noteq> [] \<Longrightarrow> range_start (Some r) = range_start (Some r') \<Longrightarrow>
   download_plan md urls (Some r) = download_plan md urls (Some r')"
  by (simp add: download_plan_def range_end_def partsToDownload_def falsy_def Let_def
           split: sum.splits)

text \<open>
  C7, as the code has it. Only an absent or empty \<open>Range\<close> header gives the plain answer:
  status 200, \<open>Content-Length\<close> the file size, no \<open>Content-Range\<close>, every part whole. A
  non-empty header is never treated as absent: without \<open>=\<close> reading it throws (status
  500); with \<open>=\<close> the ranged branch is taken, status 206 with a \<open>Content-Range\<close>. What
  follows the first \<open>-\<close> after the \<open>=\<close> is not read, so \<open>bytes=100-200\<close> is answered as
  \<open>bytes=100-\<close> is.
\<close>

theorem range_header_forms:
  "(falsy rangeStr \<longrightarrow>
      download_plan md urls rangeStr =
        Inr \<lparr>status = 200, content_length = toString_json (fileSize md), content_range = None,
             parts = map whole urls\<rparr>)
   \<and> (r \<noteq> [] \<longrightarrow>
        (case download_plan md urls (Some r) of
           Inl _ \<Rightarrow> 0x3D \<notin> set r
         | Inr pl \<Rightarrow> 0x3D \<in> set r \<and> status pl = 206 \<and> content_range pl \<noteq> None))
   \<and> (0x3D \<notin> set a \<and> 0x3D \<notin> set d \<and> 0x2D \<notin> set d \<longrightarrow>
        download_plan md urls (Some (a @ 0x3D # d @ 0x2D # rest))
          = download_plan md urls (Some (a @ 0x3D # d @ [0x2D])))"
proof (intro conjI impI)
  assume "falsy rangeStr"
  then show "download_plan md urls rangeStr =
        Inr \<lparr>status = 200, content_length = toString_json (fileSize md), content_range = None,
             parts = map whole urls\<rparr>"
    by (simp add: download_plan_def range_start_absent partsToDownload_def)
next
  assume ne: "r \<noteq> []"
  show "case download_plan md urls (Some r) of
           Inl _ \<Rightarrow> 0x3D \<notin> set r
         | Inr pl \<Rightarrow> 0x3D \<in> set r \<and> status pl = 206 \<and> content_range pl \<noteq> None"
  proof (cases "0x3D \<in> set r")
    case True
    from range_start_eq [OF True] obtain n where "range_start (Some r) = Inr (Some n)" by blast
    from ranged_plan [OF ne this, of md urls] True show ?thesis by auto
  next
    case False
    with ne show ?thesis by (simp add: download_plan_def range_start_no_eq)
  qed
next
  assume a: "0x3D \<notin> set a \<and> 0x3D \<notin> set d \<and> 0x2D \<notin> set d"
  then have "range_start (Some (a @ 0x3D # d @ 0x2D # rest)) = range_start (Some (a @ 0x3D # d @ 0x2D # []))"
    by (simp add: range_start_prefix)
  then show "download_plan md urls (Some (a @ 0x3D # d @ 0x2D # rest))
          = download_plan md urls (Some (a @ 0x3D # d @ [0x2D]))"
    by (intro plan_depends_on_start) simp_all
qed

theorem range_header_forms_witness:
  "download_plan md25 [js ''ua'', js ''ub'', js ''uc''] None =
        Inr \<lparr>status = 200, content_length = js ''25000000'', content_range = None,
             parts = map whole [js ''ua'', js ''ub'', js ''uc'']\<rparr>
   \<and> (\<exists>pl. download_plan md25 [js ''ua'', js ''ub'', js ''uc''] (Some (js ''bytes=100-200'')) = Inr pl
          \<and> status pl = 206 \<and> content_range pl \<noteq> None)
   \<and> download_plan md25 [js ''ua'', js ''ub'', js ''uc''] (Some (js ''bytes=100-200''))
      = download_plan md25 [js ''ua'', js ''ub'', js ''uc''] (Some (js ''bytes=100-''))"
proof -
  have s: "js ''bytes=100-200'' = js ''bytes'' @ 0x3D # js ''100'' @ 0x2D # js ''200''"
    "js ''bytes=100-'' = js ''bytes'' @ 0x3D # js ''100'' @ [0x2D]"
    by (simp_all add: js_def)
  have c: "0x3D \<notin> set (js ''bytes'') \<and> 0x3D \<notin> set (js ''100'') \<and> 0x2D \<notin> set (js ''100'')"
    by (simp add: js_def)
  have ne: "js ''bytes=100-200'' \<noteq> []" "0x3D \<in> set (js ''bytes=100-200'')"
    by (simp_all add: js_def)
  have f: "toString_json (fileSize md25) = js ''25000000''"
    by (simp add: md25_def digits.simps js_def)
  from range_header_forms [of None md25 "[js ''ua'', js ''ub'', js ''uc'']" "js ''bytes=100-200''"
      "js ''bytes''" "js ''100''" "js ''200''"] c ne f
  show ?thesis
    unfolding s [symmetric]
    by (auto simp: falsy_def split: sum.splits)
qed

lemma movie_server_f1: "files movie_server (js ''f1'') = Some md25"
  unfolding md25_def by code_simp

lemma tiny_server_f4:
  "files tiny_server (js ''f4'') = Some \<lparr>is_done = True, fileId = js ''f4'', fileName = js ''t.bin'',
      fileSize = Some 3, chunkSize = Some 1048576, totalChunks = Some 3,
      deleteToken = Some (js ''0fa0''), fileIds = [js ''r0'', js ''r1'', js ''r2'']\<rparr>"
  by code_simp

lemma get_fileId_movie:
  "get_fileId resolve fetch (js ''f1'') rangeStr movie_server =
     (case download_plan md25 (convertFileIdsToUrls resolve (fileIds md25)) rangeStr of
        Inl _ \<Rightarrow> InternalError
      | Inr pl \<Rightarrow>
          (let (body, ok) = stream_parts fetch (parts pl) []
           in if \<not> ok \<and> body = [] then InternalError
              else Response (status pl) (content_length pl) (content_range pl) body ok))"
  by (simp add: get_fileId_def movie_server_f1)

text \<open>
  C7 as stated fails: \<open>bytes=100-200\<close> and \<open>bytes=-500\<close> are answered 206, the latter with
  \<open>NaN\<close> in its headers and no body, and \<open>bytes\<close> is answered 500.
\<close>

theorem range_header_forms_counterexample:
  "get_fileId url_of one_byte (js ''f1'') (Some (js ''bytes=100-200'')) movie_server
     = Response 206 (js ''10000001'') (Some (js ''bytes 100-10000100/25000000'')) [0x2A, 0x2A] True
   \<and> get_fileId url_of one_byte (js ''f1'') (Some (js ''bytes=-500'')) movie_server
     = Response 206 (js ''NaN'') (Some (js ''bytes NaN-NaN/25000000'')) [] True
   \<and> get_fileId url_of one_byte (js ''f1'') (Some (js ''bytes'')) movie_server = InternalError"
  unfolding get_fileId_movie
  by (simp add: md25_def convertFileIdsToUrls_def url_of_def one_byte_def eval_defs)

section \<open>Unresolved references\<close>

lemma convertFileIdsToUrls_resolved:
  "convertFileIdsToUrls resolve ids = map (\<lambda>r. the (resolve r)) (resolved resolve ids)"
  by (simp add: convertFileIdsToUrls_def resolved_def filter_map comp_def)

lemma length_resolved:
  "\<exists>r\<in>set ids. falsy (resolve r) \<Longrightarrow> length (resolved resolve ids) < length ids"
proof -
  assume "\<exists>r\<in>set ids. falsy (resolve r)"
  then obtain r where "r \<in> set ids" and "\<not> \<not> falsy (resolve r)" by auto
  then show ?thesis unfolding resolved_def by (rule length_filter_less)
qed

lemma stream_parts_whole:
  assumes "\<forall>r\<in>set rs. fetch (the (resolve r)) None = Complete (content r)"
  shows "stream_parts fetch (map whole (map (\<lambda>r. the (resolve r)) rs)) written
         = (written @ concat (map content rs), True)"
  using assms
proof (induction rs arbitrary: written)
  case Nil
  show ?case by simp
next
  case (Cons r rs)
  then show ?case by (simp add: whole_def fetch_range_def)
qed

lemma concat_filter_less:
  assumes "\<forall>r\<in>set ids. content r \<noteq> []" and "\<exists>r\<in>set ids. \<not> P r"
  shows "length (concat (map content (filter P ids))) < length (concat (map content ids))"
  using assms
proof (induction ids)
  case Nil
  then show ?case by simp
next
  case (Cons r rs)
  have le: "length (concat (map content (filter P rs))) \<le> length (concat (map content rs))"
    by (induction rs) auto
  show ?case
  proof (cases "P r")
    case True
    with Cons show ?thesis by auto
  next
    case False
    moreover from Cons.prems have "0 < length (content r)" by simp
    ultimately show ?thesis using le by (simp del: length_greater_0_conv)
  qed
qed

lemma set_offsets_Cons:
  "\<exists>q qs. set_offsets a b (p # ps) = q # qs \<and> url q = url p \<and> part_start q = Some a"
proof (cases ps)
  case Nil
  then show ?thesis by (simp add: set_offsets_def)
next
  case (Cons p2 ps2)
  then show ?thesis by (simp add: set_offsets_def Let_def)
qed

lemma ceil_pos: "1 \<le> (e::int) \<Longrightarrow> 0 < c \<Longrightarrow> 1 \<le> - ((- e) div c)"
proof -
  assume "1 \<le> e" and "0 < c"
  then have "(- e) div c < 0" by (simp add: pos_imp_zdiv_neg_iff)
  then show "1 \<le> - ((- e) div c)" by simp
qed

text \<open>
  C10. A reference that the backend does not resolve is dropped from the list of URLs
  before anything else is done with the list. For a download without \<open>Range\<close> of a record
  with such a reference, where every resolved chunk is fetched whole: the answer is still
  status 200 with \<open>Content-Length\<close> the file size, ended normally, and its body is the
  resolved chunks only; when the chunks are non-empty and add up to the file size, the body
  is shorter than the advertised length. A ranged request slices the shortened list: when
  the first reference is lost and the second resolves, byte 0 of \<open>bytes=0-\<close> is served from
  the second chunk's URL.
\<close>

theorem unresolved_chunks_dropped:
  assumes "files srv fid = Some md"
    and "\<exists>r\<in>set (fileIds md). falsy (resolve r)"
    and "\<forall>r\<in>set (fileIds md). \<not> falsy (resolve r) \<longrightarrow> fetch (the (resolve r)) None = Complete (content r)"
  shows "convertFileIdsToUrls resolve (fileIds md)
           = map (\<lambda>r. the (resolve r)) (resolved resolve (fileIds md))
    \<and> length (convertFileIdsToUrls resolve (fileIds md)) < length (fileIds md)
    \<and> get_fileId resolve fetch fid None srv =
        Response 200 (toString_json (fileSize md)) None
          (concat (map content (resolved resolve (fileIds md)))) True
    \<and> ((\<forall>r\<in>set (fileIds md). content r \<noteq> [])
         \<and> fileSize md = Some (int (length (concat (map content (fileIds md))))) \<longrightarrow>
        int (length (concat (map content (resolved resolve (fileIds md))))) < the (fileSize md))
    \<and> (\<forall>r0 r1 rest c f. fileIds md = r0 # r1 # rest \<and> falsy (resolve r0) \<and> \<not> falsy (resolve r1)
          \<and> chunkSize md = Some c \<and> 0 < c \<and> fileSize md = Some f \<and> 2 \<le> f \<longrightarrow>
        (\<exists>pl p ps. download_plan md (convertFileIdsToUrls resolve (fileIds md)) (Some (js ''bytes=0-''))
               = Inr pl
           \<and> status pl = 206 \<and> parts pl = p # ps \<and> url p = the (resolve r1)
           \<and> part_start p = Some (Num 0)))"
proof -
  have a: "convertFileIdsToUrls resolve (fileIds md)
           = map (\<lambda>r. the (resolve r)) (resolved resolve (fileIds md))"
    by (rule convertFileIdsToUrls_resolved)
  have b: "length (convertFileIdsToUrls resolve (fileIds md)) < length (fileIds md)"
    unfolding a using length_resolved [OF assms(2)] by simp
  have fetches: "\<forall>r\<in>set (resolved resolve (fileIds md)).
      fetch (the (resolve r)) None = Complete (content r)"
    using assms(3) by (simp add: resolved_def)
  have c: "get_fileId resolve fetch fid None srv =
        Response 200 (toString_json (fileSize md)) None
          (concat (map content (resolved resolve (fileIds md)))) True"
    using stream_parts_whole [of "resolved resolve (fileIds md)" fetch resolve content "[]"] fetches
    by (simp add: get_fileId_def assms(1) download_plan_def range_start_def falsy_def
        partsToDownload_def a)
  have d: "int (length (concat (map content (resolved resolve (fileIds md))))) < the (fileSize md)"
    if "\<forall>r\<in>set (fileIds md). content r \<noteq> []"
      and "fileSize md = Some (int (length (concat (map content (fileIds md)))))"
    using concat_filter_less [OF that(1), of "\<lambda>r. \<not> falsy (resolve r)"] assms(2) that(2)
    by (simp add: resolved_def)
  have e: "\<exists>pl p ps. download_plan md (convertFileIdsToUrls resolve (fileIds md)) (Some (js ''bytes=0-''))
               = Inr pl
           \<and> status pl = 206 \<and> parts pl = p # ps \<and> url p = the (resolve r1)
           \<and> part_start p = Some (Num 0)"
    if f: "fileIds md = r0 # r1 # rest" "falsy (resolve r0)" "\<not> falsy (resolve r1)"
      and n: "chunkSize md = Some c" "0 < c" "fileSize md = Some f" "2 \<le> f"
    for r0 r1 rest c f
  proof -
    have ne: "js ''bytes=0-'' \<noteq> []" by (simp add: js_def)
    have st: "range_start (Some (js ''bytes=0-'')) = Inr (Some (Num 0))"
      by (simp add: eval_defs)
    have u: "convertFileIdsToUrls resolve (fileIds md)
        = the (resolve r1) # convertFileIdsToUrls resolve rest"
      using f by (simp add: convertFileIdsToUrls_def)
    have e1: "1 \<le> min c (f - 1)" using n by simp
    then have "1 \<le> - ((- min c (f - 1)) div c)"
      using n(2) by (rule ceil_pos)
    then obtain k where k: "nat (- ((- min c (f - 1)) div c)) = Suc k"
      by (cases "nat (- ((- min c (f - 1)) div c))") auto
    from plan_of_range [OF n(1,2,3) _ ne st, of "convertFileIdsToUrls resolve (fileIds md)"] n(4)
    have "download_plan md (convertFileIdsToUrls resolve (fileIds md)) (Some (js ''bytes=0-'')) =
        Inr \<lparr>status = 206,
             content_length = toString_num (Num (min (0 + c) (f - 1) - 0 + 1)),
             content_range = Some (js ''bytes '' @ toString_num (Num 0) @ js ''-''
                @ toString_num (Num (min (0 + c) (f - 1))) @ js ''/'' @ toString_num (Num f)),
             parts = set_offsets (Num (0 mod c)) (Num (min (0 + c) (f - 1) mod c))
                (map whole (take (nat (- ((- min (0 + c) (f - 1)) div c)) - nat (0 div c))
                              (drop (nat (0 div c)) (convertFileIdsToUrls resolve (fileIds md)))))\<rparr>"
      by simp
    moreover have "\<exists>q qs. set_offsets (Num 0) (Num (min c (f - 1) mod c))
           (map whole (take (Suc k) (the (resolve r1) # convertFileIdsToUrls resolve rest))) = q # qs
         \<and> url q = the (resolve r1) \<and> part_start q = Some (Num 0)"
      using set_offsets_Cons [of "Num 0" "Num (min c (f - 1) mod c)" "whole (the (resolve r1))"
          "map whole (take k (convertFileIdsToUrls resolve rest))"]
      by (simp add: whole_def)
    ultimately show ?thesis
      using k by (auto simp: u)
  qed
  from a b c d e show ?thesis by blast
qed

theorem unresolved_chunks_dropped_witness:
  "convertFileIdsToUrls (url_unless (js ''r0'')) [js ''r0'', js ''r1'', js ''r2'']
      = [js ''ur1'', js ''ur2'']
   \<and> get_fileId (url_unless (js ''r0'')) one_byte (js ''f4'') None tiny_server
      = Response 200 (js ''3'') None [0x2A, 0x2A] True
   \<and> int (length [0x2A, 0x2A :: 8 word]) < the (fileSize (the (files tiny_server (js ''f4''))))
   \<and> (\<exists>pl p ps. download_plan \<lparr>is_done = True, fileId = js ''f4'', fileName = js ''t.bin'',
            fileSize = Some 3, chunkSize = Some 1048576, totalChunks = Some 3,
            deleteToken = Some (js ''0fa0''), fileIds = [js ''r0'', js ''r1'', js ''r2'']\<rparr>
          [js ''ur1'', js ''ur2''] (Some (js ''bytes=0-'')) = Inr pl
        \<and> status pl = 206 \<and> parts pl = p # ps \<and> url p = js ''ur1'' \<and> part_start p = Some (Num 0))"
proof -
  define md where "md = \<lparr>is_done = True, fileId = js ''f4'', fileName = js ''t.bin'',
      fileSize = Some 3, chunkSize = Some 1048576, totalChunks = Some (3::int),
      deleteToken = Some (js ''0fa0''), fileIds = [js ''r0'', js ''r1'', js ''r2'']\<rparr>"
  have f: "files tiny_server (js ''f4'') = Some md"
    unfolding md_def by (rule tiny_server_f4)
  have ids: "fileIds md = [js ''r0'', js ''r1'', js ''r2'']" by (simp add: md_def)
  have res: "falsy (url_unless (js ''r0'') (js ''r0''))"
    "\<not> falsy (url_unless (js ''r0'') (js ''r1''))" "\<not> falsy (url_unless (js ''r0'') (js ''r2''))"
    "the (url_unless (js ''r0'') (js ''r1'')) = js ''ur1''"
    "the (url_unless (js ''r0'') (js ''r2'')) = js ''ur2''"
    by (simp_all add: url_unless_def url_of_def falsy_def js_def)
  have lost: "\<exists>r\<in>set (fileIds md). falsy (url_unless (js ''r0'') r)"
    using res(1) by (simp add: ids)
  have fetches: "\<forall>r\<in>set (fileIds md). \<not> falsy (url_unless (js ''r0'') r) \<longrightarrow>
      one_byte (the (url_unless (js ''r0'') r)) None = Complete ((\<lambda>r. [0x2A]) r)"
    by (simp add: one_byte_def)
  note t = unresolved_chunks_dropped [of tiny_server "js ''f4''" md "url_unless (js ''r0'')"
      one_byte "\<lambda>r. [0x2A]", OF f lost fetches]
  have r: "resolved (url_unless (js ''r0'')) (fileIds md) = [js ''r1'', js ''r2'']"
    using res by (simp add: resolved_def ids)
  note t' = t [unfolded r]
  from t' have 1: "convertFileIdsToUrls (url_unless (js ''r0'')) (fileIds md) = [js ''ur1'', js ''ur2'']"
    using res by simp
  from t' have 2: "get_fileId (url_unless (js ''r0'')) one_byte (js ''f4'') None tiny_server
      = Response 200 (js ''3'') None [0x2A, 0x2A] True"
    by (simp add: md_def digits.simps js_def)
  from t' have 4: "int (length [0x2A, 0x2A :: 8 word]) < the (fileSize (the (files tiny_server (js ''f4''))))"
    by (simp add: f) (simp add: md_def)
  from t have "\<forall>r0 r1 rest c f. fileIds md = r0 # r1 # rest \<and> falsy (url_unless (js ''r0'') r0)
          \<and> \<not> falsy (url_unless (js ''r0'') r1)
          \<and> chunkSize md = Some c \<and> 0 < c \<and> fileSize md = Some f \<and> 2 \<le> f \<longrightarrow>
        (\<exists>pl p ps. download_plan md (convertFileIdsToUrls (url_unless (js ''r0'')) (fileIds md))
               (Some (js ''bytes=0-'')) = Inr pl
           \<and> status pl = 206 \<and> parts pl = p # ps \<and> url p = the (url_unless (js ''r0'') r1)
           \<and> part_start p = Some (Num 0))"
    by blast
  then have 3: "\<exists>pl p ps. download_plan md (convertFileIdsToUrls (url_unless (js ''r0'')) (fileIds md))
               (Some (js ''bytes=0-'')) = Inr pl
           \<and> status pl = 206 \<and> parts pl = p # ps \<and> url p = the (url_unless (js ''r0'') (js ''r1''))
           \<and> part_start p = Some (Num 0)"
    using res(1,2) ids by (simp add: md_def)
  from 1 2 3 4 show ?thesis
    unfolding 1 res(4) ids unfolding md_def by simp
qed

end
